theory Spec2Isabelle
  imports Main "HOL-Library.AList"
begin

section \<open>The auto-healer of obs-playground\<close>

text \<open>
  A shallow embedding of \<^verbatim>\<open>src/apps/auto-healer/healer.py\<close> and
  \<^verbatim>\<open>src/apps/auto-healer/main.py\<close>. The Kubernetes client is an external
  collaborator: it is a record of response functions (\<open>cluster\<close>), and every call the
  program makes is appended to a trace together with its outcome. The module-level
  Prometheus metrics and the logger are fields of the program state. An
  \<^verbatim>\<open>ApiException\<close> is the only exception the client raises; every
  \<^verbatim>\<open>except ApiException\<close> of the source is a branch of the model. The one attribute
  that the source reads and the client's container status may not have raises an
  \<^verbatim>\<open>AttributeError\<close>, which only the \<^verbatim>\<open>except Exception\<close> of the cycle catches.
  Within one run the client's answer to a request depends on the request only. Wall-clock readings (the
  \<^verbatim>\<open>timestamp\<close> entries and the annotation values of the restart patch) are left out.
\<close>

subsection \<open>Objects read from the cluster\<close>

record owner_reference =
  owner_kind :: string
  owner_name :: string

text \<open>An attribute that an object may lack: reading it then raises an
  \<^verbatim>\<open>AttributeError\<close>.\<close>

datatype 'a attribute = Missing | Present 'a

datatype attribute_error = AttributeError string

text \<open>The container status of the client. \<^verbatim>\<open>main.py\<close> reads
  \<^verbatim>\<open>container.last_termination_time\<close>; the declaration of the class is not part of
  the repository, so whether an object has the attribute is part of the object. The
  container statuses that the Kubernetes client returns have no such attribute
  (\<open>Missing\<close>).\<close>

record container_status =
  container_name :: string
  restart_count :: int
  image :: string
  ready :: bool
  last_termination_time :: "string option attribute"

text \<open>\<open>pod.metadata.name\<close>, \<open>pod.metadata.owner_references\<close>, \<open>pod.status.phase\<close> and
  \<open>pod.status.container_statuses\<close>; the optional attributes may be \<^verbatim>\<open>None\<close>.\<close>

record pod =
  metadata_name :: string
  owner_references :: "owner_reference list option"
  phase :: "string option"
  container_statuses :: "container_status list option"

record replica_set =
  rs_owner_references :: "owner_reference list option"

record deployment =
  spec_replicas :: "int option"
  status_ready_replicas :: "int option"

datatype api_exception = ApiException string

text \<open>The client: each read answers with an object or raises; the patch answers \<open>None\<close>
  when it is accepted and \<open>Some e\<close> when it raises \<open>e\<close>. Arguments are name, then namespace.\<close>

record cluster =
  list_namespaced_pod :: "string \<Rightarrow> api_exception + pod list"
  read_namespaced_pod :: "string \<Rightarrow> string \<Rightarrow> api_exception + pod"
  read_namespaced_replica_set :: "string \<Rightarrow> string \<Rightarrow> api_exception + replica_set"
  list_namespaced_deployment :: "string \<Rightarrow> api_exception + deployment list"
  patch_namespaced_deployment :: "string \<Rightarrow> string \<Rightarrow> api_exception option"

subsection \<open>Program state: trace of API calls, log, metrics\<close>

datatype api_call =
    ListPods string
  | ReadPod string string
  | ReadReplicaSet string string
  | ListDeployments string
  | PatchDeployment string string

text \<open>One constructor for each logging statement of the two modules.\<close>

datatype log_record =
    RestartCountFailed string api_exception
  | PatchedDeployment string string
  | PatchFailed string api_exception
  | SummaryFailed string api_exception
  | FoundUnhealthyIn nat string
  | ListPodsFailed string api_exception
  | NoOwnerReferences string
  | HealingDeployment string string
  | DryRunWouldRestart string
  | RestartTriggered string
  | NoDeploymentFound string
  | HealPodFailed string api_exception
  | CycleStarting
  | NoUnhealthyPods
  | FoundTotal nat nat
  | PodHasRestarts string string int int
  | CycleCompleted nat
  | CycleFailed attribute_error

text \<open>\<open>heal_actions\<close> is the counter \<^verbatim>\<open>HEAL_ACTIONS\<close> by its labels (type, namespace,
  resource), \<open>heal_errors\<close> is \<^verbatim>\<open>HEAL_ERRORS\<close> by error type, \<open>unhealthy_pods_gauge\<close> is
  \<^verbatim>\<open>UNHEALTHY_PODS\<close>, and \<open>slept\<close> the seconds spent in \<^verbatim>\<open>time.sleep\<close>.\<close>

record state =
  calls :: "(api_call \<times> api_exception option) list"
  log :: "log_record list"
  heal_actions :: "string \<times> string \<times> string \<Rightarrow> nat"
  heal_errors :: "string \<Rightarrow> nat"
  unhealthy_pods_gauge :: nat
  slept :: nat

definition called :: "api_call \<Rightarrow> api_exception option \<Rightarrow> state \<Rightarrow> state" where
  "called c r s = s\<lparr>calls := calls s @ [(c, r)]\<rparr>"

definition logged :: "log_record \<Rightarrow> state \<Rightarrow> state" where
  "logged m s = s\<lparr>log := log s @ [m]\<rparr>"

definition inc_action :: "string \<times> string \<times> string \<Rightarrow> state \<Rightarrow> state" where
  "inc_action l s = s\<lparr>heal_actions := (heal_actions s)(l := heal_actions s l + 1)\<rparr>"

definition inc_error :: "string \<Rightarrow> state \<Rightarrow> state" where
  "inc_error t s = s\<lparr>heal_errors := (heal_errors s)(t := heal_errors s t + 1)\<rparr>"

definition init_state :: state where
  "init_state = \<lparr>calls = [], log = [], heal_actions = (\<lambda>_. 0), heal_errors = (\<lambda>_. 0),
     unhealthy_pods_gauge = 0, slept = 0\<rparr>"

text \<open>The mutating calls of a trace: the program's only mutating request is the patch.\<close>

fun is_patch :: "api_call \<times> api_exception option \<Rightarrow> bool" where
  "is_patch (PatchDeployment d n, r) = True"
| "is_patch (c, r) = False"

definition patch_calls :: "state \<Rightarrow> (api_call \<times> api_exception option) list" where
  "patch_calls s = filter is_patch (calls s)"

subsection \<open>healer.py: PodRestartHealer\<close>

text \<open>The loop of \<^verbatim>\<open>get_pod_restart_count\<close> (lines 24 to 27), started at 0.\<close>

fun max_restarts_loop :: "container_status list \<Rightarrow> int \<Rightarrow> int" where
  "max_restarts_loop [] max_restarts = max_restarts"
| "max_restarts_loop (container # rest) max_restarts =
     max_restarts_loop rest
       (if restart_count container > max_restarts then restart_count container
        else max_restarts)"

definition get_pod_restart_count :: "cluster \<Rightarrow> string \<Rightarrow> string \<Rightarrow> state \<Rightarrow> int \<times> state" where
  "get_pod_restart_count k pod_name namespace s =
     (case read_namespaced_pod k pod_name namespace of
        Inl e \<Rightarrow>
          (0, logged (RestartCountFailed pod_name e)
                (called (ReadPod pod_name namespace) (Some e) s))
      | Inr pod \<Rightarrow>
          (let s1 = called (ReadPod pod_name namespace) None s in
           case container_statuses pod of
             None \<Rightarrow> (0, s1)
           | Some [] \<Rightarrow> (0, s1)
           | Some statuses \<Rightarrow> (max_restarts_loop statuses 0, s1)))"

definition is_pod_unhealthy :: "int \<Rightarrow> cluster \<Rightarrow> string \<Rightarrow> string \<Rightarrow> state \<Rightarrow> bool \<times> state" where
  "is_pod_unhealthy restart_threshold k pod_name namespace s =
     (case get_pod_restart_count k pod_name namespace s of
        (restarts, s') \<Rightarrow> (restarts \<ge> restart_threshold, s'))"

subsection \<open>healer.py: DeploymentPatcher\<close>

text \<open>\<^verbatim>\<open>restart_deployment\<close>: one patch request; an \<^verbatim>\<open>ApiException\<close> is caught and
  turned into \<^verbatim>\<open>False\<close>.\<close>

definition restart_deployment :: "cluster \<Rightarrow> string \<Rightarrow> string \<Rightarrow> state \<Rightarrow> bool \<times> state" where
  "restart_deployment k deployment_name namespace s =
     (case patch_namespaced_deployment k deployment_name namespace of
        None \<Rightarrow>
          (True, logged (PatchedDeployment deployment_name namespace)
                   (called (PatchDeployment deployment_name namespace) None s))
      | Some e \<Rightarrow>
          (False, logged (PatchFailed deployment_name e)
                    (called (PatchDeployment deployment_name namespace) (Some e) s)))"

subsection \<open>healer.py: NamespaceHealthChecker\<close>

text \<open>The dictionary \<^verbatim>\<open>summary\<close> with its two nested dictionaries, flattened; these
  are all the keys the source creates.\<close>

record namespace_summary =
  summary_namespace :: string
  pods_total :: nat
  pods_running :: nat
  pods_pending :: nat
  pods_failed :: nat
  pods_unhealthy :: nat
  deployments_total :: nat
  deployments_ready :: nat

text \<open>The dictionary returned from the \<^verbatim>\<open>except\<close> branch.\<close>

record error_summary =
  error_namespace :: string
  error :: api_exception

text \<open>Lines 222 to 225: the scan of one pod's containers, left at the first match
  (\<^verbatim>\<open>break\<close>).\<close>

fun container_loop :: "container_status list \<Rightarrow> namespace_summary \<Rightarrow> namespace_summary" where
  "container_loop [] summary = summary"
| "container_loop (container # rest) summary =
     (if restart_count container \<ge> 3
      then summary\<lparr>pods_unhealthy := pods_unhealthy summary + 1\<rparr>
      else container_loop rest summary)"

text \<open>Lines 212 to 225: the body of the loop over the pods.\<close>

definition count_pod :: "pod \<Rightarrow> namespace_summary \<Rightarrow> namespace_summary" where
  "count_pod p summary =
     (let s1 = summary\<lparr>pods_total := pods_total summary + 1\<rparr>;
          s2 = (if phase p = Some ''Running'' then s1\<lparr>pods_running := pods_running s1 + 1\<rparr>
                else if phase p = Some ''Pending'' then s1\<lparr>pods_pending := pods_pending s1 + 1\<rparr>
                else if phase p = Some ''Failed'' then s1\<lparr>pods_failed := pods_failed s1 + 1\<rparr>
                else s1)
      in case container_statuses p of
           None \<Rightarrow> s2
         | Some statuses \<Rightarrow> container_loop statuses s2)"

fun pod_loop :: "pod list \<Rightarrow> namespace_summary \<Rightarrow> namespace_summary" where
  "pod_loop [] summary = summary"
| "pod_loop (p # rest) summary = pod_loop rest (count_pod p summary)"

text \<open>Python's truth value of an optional integer: \<^verbatim>\<open>None\<close> and 0 are false.\<close>

fun truthy_int :: "int option \<Rightarrow> bool" where
  "truthy_int None = False"
| "truthy_int (Some n) = (n \<noteq> 0)"

text \<open>Lines 229 to 233: the body of the loop over the deployments.\<close>

definition count_deployment :: "deployment \<Rightarrow> namespace_summary \<Rightarrow> namespace_summary" where
  "count_deployment d summary =
     (let s1 = summary\<lparr>deployments_total := deployments_total summary + 1\<rparr>
      in if truthy_int (status_ready_replicas d) \<and> status_ready_replicas d = spec_replicas d
         then s1\<lparr>deployments_ready := deployments_ready s1 + 1\<rparr>
         else s1)"

fun deployment_loop :: "deployment list \<Rightarrow> namespace_summary \<Rightarrow> namespace_summary" where
  "deployment_loop [] summary = summary"
| "deployment_loop (d # rest) summary = deployment_loop rest (count_deployment d summary)"

definition empty_summary :: "string \<Rightarrow> namespace_summary" where
  "empty_summary namespace =
     \<lparr>summary_namespace = namespace, pods_total = 0, pods_running = 0, pods_pending = 0,
      pods_failed = 0, pods_unhealthy = 0, deployments_total = 0, deployments_ready = 0\<rparr>"

definition get_namespace_health_summary ::
  "cluster \<Rightarrow> string \<Rightarrow> state \<Rightarrow> (error_summary + namespace_summary) \<times> state" where
  "get_namespace_health_summary k namespace s =
     (case list_namespaced_pod k namespace of
        Inl e \<Rightarrow>
          (Inl \<lparr>error_namespace = namespace, error = e\<rparr>,
           logged (SummaryFailed namespace e) (called (ListPods namespace) (Some e) s))
      | Inr pods \<Rightarrow>
          (let s1 = called (ListPods namespace) None s;
               summary = pod_loop pods (empty_summary namespace)
           in case list_namespaced_deployment k namespace of
                Inl e \<Rightarrow>
                  (Inl \<lparr>error_namespace = namespace, error = e\<rparr>,
                   logged (SummaryFailed namespace e)
                     (called (ListDeployments namespace) (Some e) s1))
              | Inr deployments \<Rightarrow>
                  (Inr (deployment_loop deployments summary),
                   called (ListDeployments namespace) None s1)))"

subsection \<open>main.py: AutoHealerService\<close>

text \<open>The settings read from the environment that the modelled methods use.\<close>

record config =
  restart_threshold :: int
  dry_run :: bool

text \<open>The dictionary appended at lines 65 to 73.\<close>

record pod_info =
  info_name :: string
  info_namespace :: string
  info_restart_count :: int
  info_container :: string
  info_image :: string
  info_ready :: bool
  info_last_restart :: "string option"

text \<open>Lines 63 to 73: one record for every container at or above the threshold. Building
  the record reads \<^verbatim>\<open>container.last_termination_time\<close> (line 72), which raises when the
  object has no such attribute.\<close>

fun scan_containers ::
  "config \<Rightarrow> string \<Rightarrow> pod \<Rightarrow> container_status list \<Rightarrow> pod_info list \<Rightarrow>
   attribute_error + pod_info list" where
  "scan_containers cfg namespace p [] unhealthy = Inr unhealthy"
| "scan_containers cfg namespace p (container # rest) unhealthy =
     (if restart_count container \<ge> restart_threshold cfg
      then (case last_termination_time container of
              Missing \<Rightarrow> Inl (AttributeError ''last_termination_time'')
            | Present t \<Rightarrow>
                scan_containers cfg namespace p rest
                  (unhealthy @
                     [\<lparr>info_name = metadata_name p, info_namespace = namespace,
                       info_restart_count = restart_count container,
                       info_container = container_name container, info_image = image container,
                       info_ready = ready container, info_last_restart = t\<rparr>]))
      else scan_containers cfg namespace p rest unhealthy)"

text \<open>Lines 61 to 73: the loop over the pods of one namespace.\<close>

fun scan_pods ::
  "config \<Rightarrow> string \<Rightarrow> pod list \<Rightarrow> pod_info list \<Rightarrow> attribute_error + pod_info list" where
  "scan_pods cfg namespace [] unhealthy = Inr unhealthy"
| "scan_pods cfg namespace (p # rest) unhealthy =
     (case container_statuses p of
        None \<Rightarrow> scan_pods cfg namespace rest unhealthy
      | Some statuses \<Rightarrow>
          (case scan_containers cfg namespace p statuses unhealthy of
             Inl err \<Rightarrow> Inl err
           | Inr unhealthy' \<Rightarrow> scan_pods cfg namespace rest unhealthy'))"

text \<open>Lines 56 to 81: the loop over the namespaces. The dictionary \<open>unhealthy_pods\<close> keeps
  insertion order, so it is an association list updated in place. The
  \<^verbatim>\<open>except ApiException\<close> of the loop does not catch an \<^verbatim>\<open>AttributeError\<close>, which
  leaves the method with the state reached (\<open>Inl\<close>).\<close>

fun scan_namespaces ::
  "config \<Rightarrow> cluster \<Rightarrow> string list \<Rightarrow> (string \<times> pod_info list) list \<Rightarrow> state \<Rightarrow>
   (attribute_error \<times> state) + ((string \<times> pod_info list) list \<times> state)" where
  "scan_namespaces cfg k [] unhealthy_pods s = Inr (unhealthy_pods, s)"
| "scan_namespaces cfg k (namespace # rest) unhealthy_pods s =
     (case list_namespaced_pod k namespace of
        Inl e \<Rightarrow>
          scan_namespaces cfg k rest unhealthy_pods
            (inc_error ''api_error''
               (logged (ListPodsFailed namespace e) (called (ListPods namespace) (Some e) s)))
      | Inr pods \<Rightarrow>
          (let s1 = called (ListPods namespace) None s
           in case scan_pods cfg namespace pods [] of
                Inl err \<Rightarrow> Inl (err, s1)
              | Inr unhealthy \<Rightarrow>
                  if unhealthy \<noteq> []
                  then scan_namespaces cfg k rest (AList.update namespace unhealthy unhealthy_pods)
                         (logged (FoundUnhealthyIn (length unhealthy) namespace) s1)
                  else scan_namespaces cfg k rest unhealthy_pods s1))"

definition get_unhealthy_pods ::
  "config \<Rightarrow> cluster \<Rightarrow> string list option \<Rightarrow> state \<Rightarrow>
   (attribute_error \<times> state) + ((string \<times> pod_info list) list \<times> state)" where
  "get_unhealthy_pods cfg k namespaces s =
     scan_namespaces cfg k
       (case namespaces of None \<Rightarrow> [''portal'', ''hrt-sre''] | Some l \<Rightarrow> l) [] s"

text \<open>Lines 107 to 132: what \<^verbatim>\<open>heal_deployment\<close> does once a Deployment owner is
  found. Every path through these lines returns.\<close>

definition heal_found :: "config \<Rightarrow> cluster \<Rightarrow> string \<Rightarrow> string \<Rightarrow> state \<Rightarrow> bool \<times> state" where
  "heal_found cfg k namespace deployment_name s =
     (let s1 = logged (HealingDeployment deployment_name namespace) s
      in if dry_run cfg
         then (True, inc_action (''dry_run_restart'', namespace, deployment_name)
                       (logged (DryRunWouldRestart deployment_name) s1))
         else (case restart_deployment k deployment_name namespace s1 of
                 (True, s2) \<Rightarrow>
                   (True, logged (RestartTriggered deployment_name)
                            (inc_action (''restart'', namespace, deployment_name) s2))
               | (False, s2) \<Rightarrow> (False, inc_error ''patch_failed'' s2)))"

text \<open>Lines 105 to 132: the loop over the owners of a ReplicaSet; \<open>None\<close> when the loop
  ends without returning.\<close>

fun rs_owner_loop ::
  "config \<Rightarrow> cluster \<Rightarrow> string \<Rightarrow> owner_reference list \<Rightarrow> state \<Rightarrow> (bool \<times> state) option" where
  "rs_owner_loop cfg k namespace [] s = None"
| "rs_owner_loop cfg k namespace (rs_owner # rest) s =
     (if owner_kind rs_owner = ''Deployment''
      then Some (heal_found cfg k namespace (owner_name rs_owner) s)
      else rs_owner_loop cfg k namespace rest s)"

text \<open>How the loop over the pod's owners is left: by a \<^verbatim>\<open>return\<close>, by an
  \<^verbatim>\<open>ApiException\<close>, or by running to its end.\<close>

datatype control = Returned bool state | Raised api_exception state | Fell state

text \<open>Lines 97 to 132.\<close>

fun owner_loop ::
  "config \<Rightarrow> cluster \<Rightarrow> string \<Rightarrow> owner_reference list \<Rightarrow> state \<Rightarrow> control" where
  "owner_loop cfg k namespace [] s = Fell s"
| "owner_loop cfg k namespace (owner # rest) s =
     (if owner_kind owner = ''ReplicaSet''
      then (case read_namespaced_replica_set k (owner_name owner) namespace of
              Inl e \<Rightarrow> Raised e (called (ReadReplicaSet (owner_name owner) namespace) (Some e) s)
            | Inr rs \<Rightarrow>
                (let s1 = called (ReadReplicaSet (owner_name owner) namespace) None s
                 in case rs_owner_references rs of
                      None \<Rightarrow> owner_loop cfg k namespace rest s1
                    | Some rs_owners \<Rightarrow>
                        (case rs_owner_loop cfg k namespace rs_owners s1 of
                           Some (b, s2) \<Rightarrow> Returned b s2
                         | None \<Rightarrow> owner_loop cfg k namespace rest s1)))
      else owner_loop cfg k namespace rest s)"

definition heal_deployment :: "config \<Rightarrow> cluster \<Rightarrow> pod_info \<Rightarrow> state \<Rightarrow> bool \<times> state" where
  "heal_deployment cfg k info s =
     (let namespace = info_namespace info; pod_name = info_name info
      in case read_namespaced_pod k pod_name namespace of
           Inl e \<Rightarrow>
             (False, inc_error ''api_error''
                       (logged (HealPodFailed pod_name e)
                          (called (ReadPod pod_name namespace) (Some e) s)))
         | Inr p \<Rightarrow>
             (let s1 = called (ReadPod pod_name namespace) None s
              in case owner_references p of
                   None \<Rightarrow> (False, logged (NoOwnerReferences pod_name) s1)
                 | Some [] \<Rightarrow> (False, logged (NoOwnerReferences pod_name) s1)
                 | Some owners \<Rightarrow>
                     (case owner_loop cfg k namespace owners s1 of
                        Returned b s2 \<Rightarrow> (b, s2)
                      | Fell s2 \<Rightarrow> (False, logged (NoDeploymentFound pod_name) s2)
                      | Raised e s2 \<Rightarrow>
                          (False, inc_error ''api_error''
                                    (logged (HealPodFailed pod_name e) s2)))))"

text \<open>Lines 160 to 168: the records of one namespace, in list order.\<close>

fun heal_pods ::
  "config \<Rightarrow> cluster \<Rightarrow> string \<Rightarrow> pod_info list \<Rightarrow> nat \<Rightarrow> state \<Rightarrow> nat \<times> state" where
  "heal_pods cfg k namespace [] healed_count s = (healed_count, s)"
| "heal_pods cfg k namespace (info # rest) healed_count s =
     (let s1 = logged (PodHasRestarts (info_name info) namespace (info_restart_count info)
                         (restart_threshold cfg)) s
      in case heal_deployment cfg k info s1 of
           (True, s2) \<Rightarrow>
             heal_pods cfg k namespace rest (healed_count + 1) (s2\<lparr>slept := slept s2 + 2\<rparr>)
         | (False, s2) \<Rightarrow> heal_pods cfg k namespace rest healed_count s2)"

text \<open>Lines 159 to 168: the loop over the items of the dictionary.\<close>

fun heal_namespaces ::
  "config \<Rightarrow> cluster \<Rightarrow> (string \<times> pod_info list) list \<Rightarrow> nat \<Rightarrow> state \<Rightarrow> nat \<times> state" where
  "heal_namespaces cfg k [] healed_count s = (healed_count, s)"
| "heal_namespaces cfg k ((namespace, pods) # rest) healed_count s =
     (case heal_pods cfg k namespace pods healed_count s of
        (healed_count', s') \<Rightarrow> heal_namespaces cfg k rest healed_count' s')"

text \<open>\<^verbatim>\<open>run_healing_cycle\<close>. An exception that leaves the scan is caught by the outer
  \<^verbatim>\<open>except Exception\<close> (lines 172 to 174): the failure is logged and the error counter
  \<^verbatim>\<open>cycle_error\<close> grows by one; the gauge is not set and no record is remediated.\<close>

definition run_healing_cycle :: "config \<Rightarrow> cluster \<Rightarrow> state \<Rightarrow> state" where
  "run_healing_cycle cfg k s =
     (case get_unhealthy_pods cfg k None (logged CycleStarting s) of
        Inl (err, s1) \<Rightarrow> inc_error ''cycle_error'' (logged (CycleFailed err) s1)
      | Inr (unhealthy_pods, s1) \<Rightarrow>
          (let total_unhealthy = sum_list (map (\<lambda>(namespace, pods). length pods) unhealthy_pods);
               s2 = s1\<lparr>unhealthy_pods_gauge := total_unhealthy\<rparr>
           in if unhealthy_pods = [] then logged NoUnhealthyPods s2
              else (case heal_namespaces cfg k unhealthy_pods 0
                           (logged (FoundTotal total_unhealthy (length unhealthy_pods)) s2) of
                      (healed_count, s3) \<Rightarrow> logged (CycleCompleted healed_count) s3)))"

subsection \<open>Predicates used in the statements\<close>

text \<open>A pod some container of which has restarted three times or more (the fixed threshold
  of the namespace summary).\<close>

definition restarting :: "pod \<Rightarrow> bool" where
  "restarting p = (\<exists>cs. container_statuses p = Some cs \<and> (\<exists>c \<in> set cs. restart_count c \<ge> 3))"

text \<open>A deployment whose ready replicas are reported, are not zero, and equal the replicas
  of its spec.\<close>

definition counted_ready :: "deployment \<Rightarrow> bool" where
  "counted_ready d = (\<exists>n. n \<noteq> 0 \<and> status_ready_replicas d = Some n \<and> spec_replicas d = Some n)"

text \<open>\<open>first_deployment rs_owners d\<close>: \<open>d\<close> is the name of the first owner of kind Deployment
  in the list.\<close>

definition first_deployment :: "owner_reference list \<Rightarrow> string \<Rightarrow> bool" where
  "first_deployment rs_owners d =
     (\<exists>pre dep post. rs_owners = pre @ dep # post \<and>
        (\<forall>x \<in> set pre. owner_kind x \<noteq> ''Deployment'') \<and>
        owner_kind dep = ''Deployment'' \<and> owner_name dep = d)"

text \<open>An owner of a pod that gives no Deployment: it is not a ReplicaSet, or it is a
  ReplicaSet that is read without error and has no owner of kind Deployment.\<close>

definition leads_nowhere :: "cluster \<Rightarrow> string \<Rightarrow> owner_reference \<Rightarrow> bool" where
  "leads_nowhere k namespace owner =
     (owner_kind owner = ''ReplicaSet'' \<longrightarrow>
        (\<exists>rs. read_namespaced_replica_set k (owner_name owner) namespace = Inr rs \<and>
           (\<forall>rs_owners. rs_owner_references rs = Some rs_owners \<longrightarrow>
              (\<forall>x \<in> set rs_owners. owner_kind x \<noteq> ''Deployment''))))"

text \<open>The two-hop resolution Pod, ReplicaSet, Deployment: \<open>d\<close> is the first Deployment owner
  of the first ReplicaSet owner that has one, every owner before it giving none.\<close>

definition resolves_to :: "cluster \<Rightarrow> string \<Rightarrow> owner_reference list \<Rightarrow> string \<Rightarrow> bool" where
  "resolves_to k namespace owners d =
     (\<exists>pre owner post rs rs_owners. owners = pre @ owner # post \<and>
        (\<forall>x \<in> set pre. leads_nowhere k namespace x) \<and>
        owner_kind owner = ''ReplicaSet'' \<and>
        read_namespaced_replica_set k (owner_name owner) namespace = Inr rs \<and>
        rs_owner_references rs = Some rs_owners \<and>
        first_deployment rs_owners d)"

text \<open>The successful ReplicaSet reads made for a list of owners, and a state with calls
  appended to its trace.\<close>

definition rs_reads :: "string \<Rightarrow> owner_reference list \<Rightarrow> (api_call \<times> api_exception option) list" where
  "rs_reads namespace owners =
     map (\<lambda>x. (ReadReplicaSet (owner_name x) namespace, None))
       (filter (\<lambda>x. owner_kind x = ''ReplicaSet'') owners)"

definition appended :: "(api_call \<times> api_exception option) list \<Rightarrow> state \<Rightarrow> state" where
  "appended cs s = s\<lparr>calls := calls s @ cs\<rparr>"

text \<open>The state in which the loop over the owners is left.\<close>

fun control_state :: "control \<Rightarrow> state" where
  "control_state (Returned b s) = s"
| "control_state (Raised e s) = s"
| "control_state (Fell s) = s"

text \<open>The pod reads of a trace, and the trace entry that reading the pod of a record
  leaves.\<close>

fun is_read_pod :: "api_call \<times> api_exception option \<Rightarrow> bool" where
  "is_read_pod (ReadPod n ns, r) = True"
| "is_read_pod (c, r) = False"

definition pod_reads :: "state \<Rightarrow> (api_call \<times> api_exception option) list" where
  "pod_reads s = filter is_read_pod (calls s)"

definition read_pod_entry :: "cluster \<Rightarrow> pod_info \<Rightarrow> api_call \<times> api_exception option" where
  "read_pod_entry k info =
     (ReadPod (info_name info) (info_namespace info),
      case read_namespaced_pod k (info_name info) (info_namespace info) of
        Inl e \<Rightarrow> Some e | Inr p \<Rightarrow> None)"



text \<open>The state in which a scan is left, by its return or by an \<^verbatim>\<open>AttributeError\<close>.\<close>

definition scan_state ::
  "(attribute_error \<times> state) + ((string \<times> pod_info list) list \<times> state) \<Rightarrow> state" where
  "scan_state r = (case r of Inl (err, s) \<Rightarrow> s | Inr (unhealthy_pods, s) \<Rightarrow> s)"

text \<open>\<open>extend s d\<close>: the state \<open>s\<close> followed by what a run that started in the initial state
  and ended in \<open>d\<close> did: its calls and log records appended, its counts and its sleep
  added.\<close>

definition extend :: "state \<Rightarrow> state \<Rightarrow> state" where
  "extend s d =
     \<lparr>calls = calls s @ calls d, log = log s @ log d,
      heal_actions = (\<lambda>l. heal_actions s l + heal_actions d l),
      heal_errors = (\<lambda>t. heal_errors s t + heal_errors d t),
      unhealthy_pods_gauge = unhealthy_pods_gauge s, slept = slept s + slept d\<rparr>"

fun control_map :: "(state \<Rightarrow> state) \<Rightarrow> control \<Rightarrow> control" where
  "control_map f (Returned b s) = Returned b (f s)"
| "control_map f (Raised e s) = Raised e (f s)"
| "control_map f (Fell s) = Fell (f s)"

section \<open>Concrete clusters\<close>

text \<open>Small clusters on which the theorems below are exercised: the pods of the
  repository's unit tests, a namespace with a finished job and a pod with two restarting
  containers, a namespace with deployments scaled to zero, and two clusters given by their
  lists of pods and ReplicaSets.\<close>

text \<open>A container status as the client returns it: without the attribute
  \<^verbatim>\<open>last_termination_time\<close>.\<close>

definition mk_container :: "string \<Rightarrow> int \<Rightarrow> container_status" where
  "mk_container n r = \<lparr>container_name = n, restart_count = r, image = ''demo:latest'', ready = True,
     last_termination_time = Missing\<rparr>"

definition not_found :: api_exception where
  "not_found = ApiException ''(404) Not Found''"

definition two_container_pod :: pod where
  "two_container_pod = \<lparr>metadata_name = ''test-pod'', owner_references = None,
     phase = Some ''Running'',
     container_statuses = Some [mk_container ''c1'' 2, mk_container ''c2'' 7]\<rparr>"

definition bare_pod :: pod where
  "bare_pod = \<lparr>metadata_name = ''idle'', owner_references = None, phase = Some ''Pending'',
     container_statuses = None\<rparr>"

definition test_cluster :: cluster where
  "test_cluster = \<lparr>
     list_namespaced_pod = (\<lambda>ns. Inl not_found),
     read_namespaced_pod = (\<lambda>n ns.
        if n = ''test-pod'' \<and> ns = ''test-namespace'' then Inr two_container_pod
        else if n = ''idle'' \<and> ns = ''test-namespace'' then Inr bare_pod
        else Inl not_found),
     read_namespaced_replica_set = (\<lambda>n ns. Inl not_found),
     list_namespaced_deployment = (\<lambda>ns. Inl not_found),
     patch_namespaced_deployment = (\<lambda>n ns. Some not_found)\<rparr>"

definition mk_pod :: "string \<Rightarrow> string \<Rightarrow> int list \<Rightarrow> pod" where
  "mk_pod n ph rs = \<lparr>metadata_name = n, owner_references = None, phase = Some ph,
     container_statuses = Some (map (mk_container ''app'') rs)\<rparr>"

definition mk_deployment :: "int option \<Rightarrow> int option \<Rightarrow> deployment" where
  "mk_deployment r rr = \<lparr>spec_replicas = r, status_ready_replicas = rr\<rparr>"

definition summary_cluster :: cluster where
  "summary_cluster = \<lparr>
     list_namespaced_pod = (\<lambda>ns.
        if ns = ''test-namespace''
        then Inr [mk_pod ''pod1'' ''Running'' [1], mk_pod ''pod2'' ''Running'' [5]]
        else if ns = ''jobs''
        then Inr [mk_pod ''done'' ''Succeeded'' [0], mk_pod ''crashing'' ''Running'' [4, 6]]
        else if ns = ''staging'' then Inr []
        else Inl not_found),
     read_namespaced_pod = (\<lambda>n ns. Inl not_found),
     read_namespaced_replica_set = (\<lambda>n ns. Inl not_found),
     list_namespaced_deployment = (\<lambda>ns.
        if ns = ''test-namespace'' then Inr [mk_deployment (Some 2) (Some 2)]
        else if ns = ''jobs'' then Inr []
        else if ns = ''staging''
        then Inr [mk_deployment (Some 0) (Some 0), mk_deployment (Some 0) None]
        else Inl not_found),
     patch_namespaced_deployment = (\<lambda>n ns. Some not_found)\<rparr>"

definition jobs_summary :: namespace_summary where
  "jobs_summary = \<lparr>summary_namespace = ''jobs'', pods_total = 2, pods_running = 1,
     pods_pending = 0, pods_failed = 0, pods_unhealthy = 1, deployments_total = 0,
     deployments_ready = 0\<rparr>"

definition staging_summary :: namespace_summary where
  "staging_summary = \<lparr>summary_namespace = ''staging'', pods_total = 0, pods_running = 0,
     pods_pending = 0, pods_failed = 0, pods_unhealthy = 0, deployments_total = 2,
     deployments_ready = 0\<rparr>"

definition mk_owner :: "string \<Rightarrow> string \<Rightarrow> owner_reference" where
  "mk_owner kd n = \<lparr>owner_kind = kd, owner_name = n\<rparr>"

definition mk_owned_pod :: "string \<Rightarrow> owner_reference list option \<Rightarrow> container_status list \<Rightarrow> pod" where
  "mk_owned_pod n owners cs = \<lparr>metadata_name = n, owner_references = owners,
     phase = Some ''Running'', container_statuses = Some cs\<rparr>"

definition conflict :: api_exception where
  "conflict = ApiException ''(409) Conflict''"

definition demo_pods :: "pod list" where
  "demo_pods =
     [mk_owned_pod ''web-1'' (Some [mk_owner ''ReplicaSet'' ''web-rs'']) [mk_container ''app'' 5, mk_container ''sidecar'' 4],
      mk_owned_pod ''orphan'' None [mk_container ''app'' 3],
      mk_owned_pod ''job-1'' (Some [mk_owner ''Job'' ''backup'', mk_owner ''ReplicaSet'' ''old-rs'']) [mk_container ''app'' 6],
      mk_owned_pod ''api-1''
        (Some [mk_owner ''Job'' ''backup'', mk_owner ''ReplicaSet'' ''old-rs'',
               mk_owner ''ReplicaSet'' ''api-rs'', mk_owner ''ReplicaSet'' ''web-rs'']) [mk_container ''app'' 1]]"

definition demo_replica_sets :: "(string \<times> replica_set) list" where
  "demo_replica_sets =
     [(''web-rs'', \<lparr>rs_owner_references = Some [mk_owner ''Deployment'' ''web'']\<rparr>),
      (''old-rs'', \<lparr>rs_owner_references = Some [mk_owner ''Rollout'' ''old'']\<rparr>),
      (''api-rs'', \<lparr>rs_owner_references =
          Some [mk_owner ''Rollout'' ''api-rollout'', mk_owner ''Deployment'' ''api'',
                mk_owner ''Deployment'' ''api-canary'']\<rparr>)]"

text \<open>A cluster with one populated namespace: pods are found by name, ReplicaSets by
  key, and the patch is rejected for the listed deployments.\<close>

definition lookup_cluster ::
  "string \<Rightarrow> pod list \<Rightarrow> (string \<times> replica_set) list \<Rightarrow> string list \<Rightarrow> cluster" where
  "lookup_cluster home pods replica_sets rejected = \<lparr>
     list_namespaced_pod = (\<lambda>ns. if ns = home then Inr pods else Inr []),
     read_namespaced_pod = (\<lambda>n ns.
        if ns = home then (case find (\<lambda>p. metadata_name p = n) pods of
                             Some p \<Rightarrow> Inr p | None \<Rightarrow> Inl not_found)
        else Inl not_found),
     read_namespaced_replica_set = (\<lambda>n ns.
        if ns = home then (case map_of replica_sets n of
                             Some rs \<Rightarrow> Inr rs | None \<Rightarrow> Inl not_found)
        else Inl not_found),
     list_namespaced_deployment = (\<lambda>ns. Inr []),
     patch_namespaced_deployment = (\<lambda>n ns. if n \<in> set rejected then Some conflict else None)\<rparr>"

definition demo_cluster :: cluster where
  "demo_cluster = lookup_cluster ''portal'' demo_pods demo_replica_sets []"

definition batch_pods :: "pod list" where
  "batch_pods =
     [mk_owned_pod ''p1'' (Some [mk_owner ''ReplicaSet'' ''rs1'']) [mk_container ''app'' 3],
      mk_owned_pod ''p2'' (Some [mk_owner ''ReplicaSet'' ''rs2'']) [mk_container ''app'' 4],
      mk_owned_pod ''p3'' (Some [mk_owner ''ReplicaSet'' ''rs3'']) [mk_container ''app'' 5],
      mk_owned_pod ''p4'' (Some [mk_owner ''ReplicaSet'' ''rs4'']) [mk_container ''app'' 6],
      mk_owned_pod ''p5'' (Some [mk_owner ''ReplicaSet'' ''rs5'']) [mk_container ''app'' 7]]"

definition batch_replica_sets :: "(string \<times> replica_set) list" where
  "batch_replica_sets =
     [(''rs1'', \<lparr>rs_owner_references = Some [mk_owner ''Deployment'' ''app1'']\<rparr>),
      (''rs2'', \<lparr>rs_owner_references = Some [mk_owner ''Deployment'' ''app2'']\<rparr>),
      (''rs3'', \<lparr>rs_owner_references = Some [mk_owner ''Deployment'' ''app3'']\<rparr>),
      (''rs4'', \<lparr>rs_owner_references = Some [mk_owner ''Deployment'' ''app4'']\<rparr>),
      (''rs5'', \<lparr>rs_owner_references = Some [mk_owner ''Deployment'' ''app5'']\<rparr>)]"

definition batch_cluster :: cluster where
  "batch_cluster = lookup_cluster ''portal'' batch_pods batch_replica_sets [''app3'']"

definition live :: config where
  "live = \<lparr>restart_threshold = 3, dry_run = False\<rparr>"

definition rehearsal :: config where
  "rehearsal = \<lparr>restart_threshold = 3, dry_run = True\<rparr>"

text \<open>A record for the pod \<open>n\<close> of the namespace \<^verbatim>\<open>portal\<close>, as \<^verbatim>\<open>heal_deployment\<close>
  takes it.\<close>

definition mk_info :: "string \<Rightarrow> int \<Rightarrow> pod_info" where
  "mk_info n r = \<lparr>info_name = n, info_namespace = ''portal'', info_restart_count = r,
     info_container = ''app'', info_image = ''demo:latest'', info_ready = True,
     info_last_restart = None\<rparr>"

text \<open>A pod whose first ReplicaSet owner is gone (its read raises) and whose second
  ReplicaSet owner belongs to the Deployment \<^verbatim>\<open>ok\<close>.\<close>

definition flaky_cluster :: cluster where
  "flaky_cluster = lookup_cluster ''portal''
     [mk_owned_pod ''ok-1''
        (Some [mk_owner ''ReplicaSet'' ''gone-rs'', mk_owner ''ReplicaSet'' ''ok-rs''])
        [mk_container ''app'' 3]]
     [(''ok-rs'', \<lparr>rs_owner_references = Some [mk_owner ''Deployment'' ''ok'']\<rparr>)] []"

section \<open>Properties\<close>

subsection \<open>Trace and log bookkeeping\<close>

lemma called_simps [simp]:
  "calls (called c r s) = calls s @ [(c, r)]"
  "log (called c r s) = log s"
  "heal_actions (called c r s) = heal_actions s"
  "heal_errors (called c r s) = heal_errors s"
  "unhealthy_pods_gauge (called c r s) = unhealthy_pods_gauge s"
  "slept (called c r s) = slept s"
  by (simp_all add: called_def)

lemma logged_simps [simp]:
  "calls (logged m s) = calls s"
  "log (logged m s) = log s @ [m]"
  "heal_actions (logged m s) = heal_actions s"
  "heal_errors (logged m s) = heal_errors s"
  "unhealthy_pods_gauge (logged m s) = unhealthy_pods_gauge s"
  "slept (logged m s) = slept s"
  by (simp_all add: logged_def)

lemma inc_action_simps [simp]:
  "calls (inc_action l s) = calls s"
  "log (inc_action l s) = log s"
  "heal_actions (inc_action l s) = (heal_actions s)(l := heal_actions s l + 1)"
  "heal_errors (inc_action l s) = heal_errors s"
  "unhealthy_pods_gauge (inc_action l s) = unhealthy_pods_gauge s"
  "slept (inc_action l s) = slept s"
  by (simp_all add: inc_action_def)

lemma inc_error_simps [simp]:
  "calls (inc_error t s) = calls s"
  "log (inc_error t s) = log s"
  "heal_actions (inc_error t s) = heal_actions s"
  "heal_errors (inc_error t s) = (heal_errors s)(t := heal_errors s t + 1)"
  "unhealthy_pods_gauge (inc_error t s) = unhealthy_pods_gauge s"
  "slept (inc_error t s) = slept s"
  by (simp_all add: inc_error_def)

subsection \<open>The restart count of a pod\<close>

lemma Max_insert_max:
  "finite S \<Longrightarrow> Max (insert (max a b) S) = Max (insert a (insert b S))"
  by (cases "S = {}") (simp_all add: max.assoc)

lemma max_restarts_loop_Max:
  "max_restarts_loop cs m = Max (insert m (restart_count ` set cs))"
proof (induction cs arbitrary: m)
  case Nil
  show ?case by simp
next
  case (Cons c cs)
  have "(if restart_count c > m then restart_count c else m) = max m (restart_count c)"
    by (simp add: max_def)
  then have "max_restarts_loop (c # cs) m = max_restarts_loop cs (max m (restart_count c))"
    by simp
  also have "\<dots> = Max (insert (max m (restart_count c)) (restart_count ` set cs))"
    by (rule Cons.IH)
  also have "\<dots> = Max (insert m (insert (restart_count c) (restart_count ` set cs)))"
    by (rule Max_insert_max) simp
  finally show ?case by simp
qed

lemma max_restarts_loop_nonneg:
  assumes "cs \<noteq> []" and "\<forall>c \<in> set cs. 0 \<le> restart_count c"
  shows "max_restarts_loop cs 0 = Max (restart_count ` set cs)"
proof -
  let ?S = "restart_count ` set cs"
  have fin: "finite ?S" and ne: "?S \<noteq> {}" using assms(1) by simp_all
  obtain c where c: "c \<in> set cs" using assms(1) by (cases cs) auto
  have "0 \<le> restart_count c" using assms(2) c by blast
  also have "restart_count c \<le> Max ?S" using fin c by (simp add: Max_ge)
  finally have "max 0 (Max ?S) = Max ?S" by simp
  then have "Max (insert 0 ?S) = Max ?S" using fin ne by simp
  then show ?thesis by (simp add: max_restarts_loop_Max)
qed

lemma get_pod_restart_count_unreadable:
  "read_namespaced_pod k n ns = Inl e \<Longrightarrow> fst (get_pod_restart_count k n ns s) = 0"
  by (simp add: get_pod_restart_count_def)

lemma get_pod_restart_count_readable:
  "read_namespaced_pod k n ns = Inr p \<Longrightarrow>
   fst (get_pod_restart_count k n ns s) =
     (case container_statuses p of None \<Rightarrow> 0 | Some cs \<Rightarrow> max_restarts_loop cs 0)"
  by (simp add: get_pod_restart_count_def Let_def split: option.splits list.splits)

text \<open>
  Claim C2. \<^verbatim>\<open>get_pod_restart_count\<close> returns 0 when the pod cannot be read (the
  \<^verbatim>\<open>ApiException\<close> is caught) and when the container-status list is absent or empty.
  Otherwise it returns the largest of 0 and the containers' restart counts, which is the
  maximum restart count whenever the counts are non-negative, as restart counters are. It
  is the maximum and not the sum: on the two containers with 2 and 7 restarts of the
  repository's test it returns 7, and their sum is 9 (see the witness).
\<close>

theorem get_pod_restart_count_max:
  "(read_namespaced_pod k n ns = Inl e \<longrightarrow> fst (get_pod_restart_count k n ns s) = 0) \<and>
   (read_namespaced_pod k n ns = Inr p \<longrightarrow>
      (container_statuses p = None \<or> container_statuses p = Some [] \<longrightarrow>
         fst (get_pod_restart_count k n ns s) = 0) \<and>
      (\<forall>cs. container_statuses p = Some cs \<longrightarrow>
         fst (get_pod_restart_count k n ns s) = Max (insert 0 (restart_count ` set cs)) \<and>
         (cs \<noteq> [] \<and> (\<forall>c \<in> set cs. 0 \<le> restart_count c) \<longrightarrow>
            fst (get_pod_restart_count k n ns s) = Max (restart_count ` set cs))))"
proof (intro conjI impI allI)
  assume "read_namespaced_pod k n ns = Inl e"
  then show "fst (get_pod_restart_count k n ns s) = 0"
    by (rule get_pod_restart_count_unreadable)
next
  assume "read_namespaced_pod k n ns = Inr p"
    and "container_statuses p = None \<or> container_statuses p = Some []"
  then show "fst (get_pod_restart_count k n ns s) = 0"
    by (auto simp: get_pod_restart_count_readable)
next
  fix cs
  assume "read_namespaced_pod k n ns = Inr p" and "container_statuses p = Some cs"
  then show "fst (get_pod_restart_count k n ns s) = Max (insert 0 (restart_count ` set cs))"
    by (simp add: get_pod_restart_count_readable max_restarts_loop_Max)
next
  fix cs
  assume "read_namespaced_pod k n ns = Inr p" and "container_statuses p = Some cs"
    and "cs \<noteq> [] \<and> (\<forall>c \<in> set cs. 0 \<le> restart_count c)"
  then show "fst (get_pod_restart_count k n ns s) = Max (restart_count ` set cs)"
    by (simp add: get_pod_restart_count_readable max_restarts_loop_nonneg)
qed

lemma test_reads:
  "read_namespaced_pod test_cluster ''test-pod'' ''test-namespace'' = Inr two_container_pod"
  "read_namespaced_pod test_cluster ''idle'' ''test-namespace'' = Inr bare_pod"
  "read_namespaced_pod test_cluster ''gone'' ''test-namespace'' = Inl not_found"
  by (simp_all add: test_cluster_def)

theorem get_pod_restart_count_max_witness:
  "fst (get_pod_restart_count test_cluster ''gone'' ''test-namespace'' init_state) = 0 \<and>
   fst (get_pod_restart_count test_cluster ''idle'' ''test-namespace'' init_state) = 0 \<and>
   fst (get_pod_restart_count test_cluster ''test-pod'' ''test-namespace'' init_state) = 7 \<and>
   container_statuses two_container_pod = Some [mk_container ''c1'' 2, mk_container ''c2'' 7] \<and>
   sum_list (map restart_count [mk_container ''c1'' 2, mk_container ''c2'' 7]) = 9"
  using get_pod_restart_count_max [of test_cluster "''gone''" "''test-namespace''" not_found init_state]
    get_pod_restart_count_max [of test_cluster "''idle''" "''test-namespace''" _ init_state bare_pod]
    get_pod_restart_count_max [of test_cluster "''test-pod''" "''test-namespace''" _ init_state two_container_pod]
  by (simp add: test_reads two_container_pod_def bare_pod_def mk_container_def)

subsection \<open>Pods without container statuses\<close>

lemma is_pod_unhealthy_fst:
  "fst (is_pod_unhealthy threshold k n ns s) = (fst (get_pod_restart_count k n ns s) \<ge> threshold)"
  by (simp add: is_pod_unhealthy_def split: prod.splits)

text \<open>
  Claim C3, as amended. For every pod with no container-status entries (the list absent
  or empty) \<^verbatim>\<open>get_pod_restart_count\<close> returns 0, and \<^verbatim>\<open>is_pod_unhealthy\<close>, which
  compares with \<^verbatim>\<open>>=\<close>, answers true exactly when the threshold is at most 0: the pod
  is healthy for every threshold of 1 or more.
\<close>

theorem no_statuses_restart_count_zero:
  "read_namespaced_pod k n ns = Inr p \<Longrightarrow>
   container_statuses p = None \<or> container_statuses p = Some [] \<Longrightarrow>
   fst (get_pod_restart_count k n ns s) = 0 \<and>
   (fst (is_pod_unhealthy threshold k n ns s) \<longleftrightarrow> threshold \<le> 0)"
  by (auto simp: is_pod_unhealthy_fst get_pod_restart_count_readable)

theorem no_statuses_restart_count_zero_witness:
  "fst (get_pod_restart_count test_cluster ''idle'' ''test-namespace'' init_state) = 0 \<and>
   \<not> fst (is_pod_unhealthy 3 test_cluster ''idle'' ''test-namespace'' init_state) \<and>
   \<not> fst (is_pod_unhealthy 1 test_cluster ''idle'' ''test-namespace'' init_state)"
  using no_statuses_restart_count_zero [of test_cluster "''idle''" "''test-namespace''" bare_pod init_state 3]
    no_statuses_restart_count_zero [of test_cluster "''idle''" "''test-namespace''" bare_pod init_state 1]
  by (simp add: test_reads bare_pod_def)

text \<open>At threshold 0 the comparison \<^verbatim>\<open>0 >= 0\<close> holds, so the same pod is reported
  unhealthy.\<close>

theorem no_statuses_unhealthy_at_threshold_zero:
  "read_namespaced_pod test_cluster ''idle'' ''test-namespace'' = Inr bare_pod \<and>
   container_statuses bare_pod = None \<and>
   fst (get_pod_restart_count test_cluster ''idle'' ''test-namespace'' init_state) = 0 \<and>
   fst (is_pod_unhealthy 0 test_cluster ''idle'' ''test-namespace'' init_state)"
  by (simp add: is_pod_unhealthy_def get_pod_restart_count_def test_reads bare_pod_def)

subsection \<open>The namespace summary\<close>

lemma container_loop_frame:
  "pods_total (container_loop cs sm) = pods_total sm"
  "pods_running (container_loop cs sm) = pods_running sm"
  "pods_pending (container_loop cs sm) = pods_pending sm"
  "pods_failed (container_loop cs sm) = pods_failed sm"
  "deployments_total (container_loop cs sm) = deployments_total sm"
  "deployments_ready (container_loop cs sm) = deployments_ready sm"
  "summary_namespace (container_loop cs sm) = summary_namespace sm"
  by (induction cs) simp_all

lemma container_loop_unhealthy:
  "pods_unhealthy (container_loop cs sm) =
     pods_unhealthy sm + (if \<exists>c \<in> set cs. restart_count c \<ge> 3 then 1 else 0)"
  by (induction cs) auto

lemma count_pod_fields:
  "pods_total (count_pod p sm) = pods_total sm + 1"
  "pods_running (count_pod p sm) = pods_running sm + (if phase p = Some ''Running'' then 1 else 0)"
  "pods_pending (count_pod p sm) = pods_pending sm + (if phase p = Some ''Pending'' then 1 else 0)"
  "pods_failed (count_pod p sm) = pods_failed sm + (if phase p = Some ''Failed'' then 1 else 0)"
  "pods_unhealthy (count_pod p sm) = pods_unhealthy sm + (if restarting p then 1 else 0)"
  "deployments_total (count_pod p sm) = deployments_total sm"
  "deployments_ready (count_pod p sm) = deployments_ready sm"
  by (simp_all add: count_pod_def Let_def container_loop_frame container_loop_unhealthy
      restarting_def split: option.splits)

lemma pod_loop_fields:
  "pods_total (pod_loop ps sm) = pods_total sm + length ps"
  "pods_running (pod_loop ps sm) = pods_running sm + length (filter (\<lambda>p. phase p = Some ''Running'') ps)"
  "pods_pending (pod_loop ps sm) = pods_pending sm + length (filter (\<lambda>p. phase p = Some ''Pending'') ps)"
  "pods_failed (pod_loop ps sm) = pods_failed sm + length (filter (\<lambda>p. phase p = Some ''Failed'') ps)"
  "pods_unhealthy (pod_loop ps sm) = pods_unhealthy sm + length (filter restarting ps)"
  "deployments_total (pod_loop ps sm) = deployments_total sm"
  "deployments_ready (pod_loop ps sm) = deployments_ready sm"
  by (induction ps arbitrary: sm) (simp_all add: count_pod_fields)

lemma counted_ready_iff:
  "truthy_int (status_ready_replicas d) \<and> status_ready_replicas d = spec_replicas d
   \<longleftrightarrow> counted_ready d"
  by (cases "status_ready_replicas d") (auto simp: counted_ready_def)

lemma count_deployment_fields:
  "pods_total (count_deployment d sm) = pods_total sm"
  "pods_running (count_deployment d sm) = pods_running sm"
  "pods_pending (count_deployment d sm) = pods_pending sm"
  "pods_failed (count_deployment d sm) = pods_failed sm"
  "pods_unhealthy (count_deployment d sm) = pods_unhealthy sm"
  "deployments_total (count_deployment d sm) = deployments_total sm + 1"
  "deployments_ready (count_deployment d sm) = deployments_ready sm + (if counted_ready d then 1 else 0)"
  by (simp_all add: count_deployment_def Let_def counted_ready_iff)

lemma deployment_loop_fields:
  "pods_total (deployment_loop ds sm) = pods_total sm"
  "pods_running (deployment_loop ds sm) = pods_running sm"
  "pods_pending (deployment_loop ds sm) = pods_pending sm"
  "pods_failed (deployment_loop ds sm) = pods_failed sm"
  "pods_unhealthy (deployment_loop ds sm) = pods_unhealthy sm"
  "deployments_total (deployment_loop ds sm) = deployments_total sm + length ds"
  "deployments_ready (deployment_loop ds sm) = deployments_ready sm + length (filter counted_ready ds)"
  by (induction ds arbitrary: sm) (simp_all add: count_deployment_fields)

lemma summary_success:
  "get_namespace_health_summary k ns s = (Inr sm, s') \<longleftrightarrow>
   (\<exists>ps ds. list_namespaced_pod k ns = Inr ps \<and> list_namespaced_deployment k ns = Inr ds \<and>
      sm = deployment_loop ds (pod_loop ps (empty_summary ns)) \<and>
      s' = called (ListDeployments ns) None (called (ListPods ns) None s))"
  by (auto simp: get_namespace_health_summary_def Let_def split: sum.splits)


lemma known_phase_partition:
  "length (filter (\<lambda>p. phase p = Some ''Running'') ps) +
   length (filter (\<lambda>p. phase p = Some ''Pending'') ps) +
   length (filter (\<lambda>p. phase p = Some ''Failed'') ps) +
   length (filter (\<lambda>p. phase p \<notin> {Some ''Running'', Some ''Pending'', Some ''Failed''}) ps)
   = length ps"
  by (induction ps) auto

lemma summary_cluster_lists:
  "list_namespaced_pod summary_cluster ''test-namespace'' =
     Inr [mk_pod ''pod1'' ''Running'' [1], mk_pod ''pod2'' ''Running'' [5]]"
  "list_namespaced_pod summary_cluster ''jobs'' =
     Inr [mk_pod ''done'' ''Succeeded'' [0], mk_pod ''crashing'' ''Running'' [4, 6]]"
  "list_namespaced_deployment summary_cluster ''test-namespace'' =
     Inr [mk_deployment (Some 2) (Some 2)]"
  "list_namespaced_deployment summary_cluster ''jobs'' = Inr []"
  "list_namespaced_pod summary_cluster ''staging'' = Inr []"
  "list_namespaced_deployment summary_cluster ''staging'' =
     Inr [mk_deployment (Some 0) (Some 0), mk_deployment (Some 0) None]"
  by (simp_all add: summary_cluster_def)

lemmas summary_eval = get_namespace_health_summary_def summary_cluster_lists Let_def
  empty_summary_def count_pod_def count_deployment_def mk_pod_def mk_deployment_def
  mk_container_def

lemma summary_test_namespace:
  "get_namespace_health_summary summary_cluster ''test-namespace'' init_state =
     (Inr \<lparr>summary_namespace = ''test-namespace'', pods_total = 2, pods_running = 2,
           pods_pending = 0, pods_failed = 0, pods_unhealthy = 1, deployments_total = 1,
           deployments_ready = 1\<rparr>,
      called (ListDeployments ''test-namespace'') None
        (called (ListPods ''test-namespace'') None init_state))"
  by (simp add: summary_eval)

lemma summary_jobs:
  "get_namespace_health_summary summary_cluster ''jobs'' init_state =
     (Inr \<lparr>summary_namespace = ''jobs'', pods_total = 2, pods_running = 1, pods_pending = 0,
           pods_failed = 0, pods_unhealthy = 1, deployments_total = 0, deployments_ready = 0\<rparr>,
      called (ListDeployments ''jobs'') None (called (ListPods ''jobs'') None init_state))"
  by (simp add: summary_eval)

lemma summary_staging:
  "get_namespace_health_summary summary_cluster ''staging'' init_state =
     (Inr \<lparr>summary_namespace = ''staging'', pods_total = 0, pods_running = 0, pods_pending = 0,
           pods_failed = 0, pods_unhealthy = 0, deployments_total = 2, deployments_ready = 0\<rparr>,
      called (ListDeployments ''staging'') None (called (ListPods ''staging'') None init_state))"
  by (simp add: summary_eval)

text \<open>
  Claim C10. In the namespace summary a pod adds at most 1 to the unhealthy count, however
  many of its containers have restarted three times or more: the scan of its containers
  is left at the first match. The unhealthy count is the number of listed pods with such a
  container, so it never exceeds the total pod count.
\<close>

theorem unhealthy_counts_each_pod_once:
  assumes "get_namespace_health_summary k ns s = (Inr sm, s')"
  shows "(\<forall>p sm0. pods_unhealthy sm0 \<le> pods_unhealthy (count_pod p sm0) \<and>
                  pods_unhealthy (count_pod p sm0) \<le> pods_unhealthy sm0 + 1) \<and>
         (\<exists>ps. list_namespaced_pod k ns = Inr ps \<and>
            pods_unhealthy sm =
              length (filter (\<lambda>p. \<exists>cs. container_statuses p = Some cs \<and>
                                  (\<exists>c \<in> set cs. restart_count c \<ge> 3)) ps) \<and>
            pods_total sm = length ps \<and>
            pods_unhealthy sm \<le> pods_total sm)"
proof
  show "\<forall>p sm0. pods_unhealthy sm0 \<le> pods_unhealthy (count_pod p sm0) \<and>
                 pods_unhealthy (count_pod p sm0) \<le> pods_unhealthy sm0 + 1"
    by (simp add: count_pod_fields)
next
  from assms obtain ps ds where ps: "list_namespaced_pod k ns = Inr ps"
    and sm: "sm = deployment_loop ds (pod_loop ps (empty_summary ns))"
    by (auto simp: summary_success)
  have u: "pods_unhealthy sm = length (filter restarting ps)"
    and t: "pods_total sm = length ps"
    by (simp_all add: sm deployment_loop_fields pod_loop_fields empty_summary_def)
  have "length (filter restarting ps) \<le> length ps" by (rule length_filter_le)
  with ps u t show "\<exists>ps. list_namespaced_pod k ns = Inr ps \<and>
      pods_unhealthy sm =
        length (filter (\<lambda>p. \<exists>cs. container_statuses p = Some cs \<and>
                            (\<exists>c \<in> set cs. restart_count c \<ge> 3)) ps) \<and>
      pods_total sm = length ps \<and> pods_unhealthy sm \<le> pods_total sm"
    unfolding restarting_def by simp
qed

theorem unhealthy_counts_each_pod_once_witness:
  "list_namespaced_pod summary_cluster ''jobs'' =
     Inr [mk_pod ''done'' ''Succeeded'' [0], mk_pod ''crashing'' ''Running'' [4, 6]] \<and>
   (\<exists>sm s'. get_namespace_health_summary summary_cluster ''jobs'' init_state = (Inr sm, s') \<and>
      pods_unhealthy sm = 1 \<and> pods_total sm = 2 \<and> pods_unhealthy sm \<le> pods_total sm)"
  using unhealthy_counts_each_pod_once [OF summary_jobs] summary_jobs
  by (simp add: summary_cluster_lists)

text \<open>
  Claim C5, as amended. A listed deployment is counted as ready if and only if its ready
  replicas are reported, are not zero, and equal the replicas of its spec: the source tests
  the truth value of \<^verbatim>\<open>ready_replicas\<close> before comparing.
\<close>

theorem deployment_ready_needs_nonzero_ready_replicas:
  assumes "get_namespace_health_summary k ns s = (Inr sm, s')"
  shows "(\<forall>d sm0. deployments_ready (count_deployment d sm0) =
            deployments_ready sm0 +
              (if \<exists>n. n \<noteq> 0 \<and> status_ready_replicas d = Some n \<and> spec_replicas d = Some n
               then 1 else 0)) \<and>
         (\<exists>ds. list_namespaced_deployment k ns = Inr ds \<and>
            deployments_total sm = length ds \<and>
            deployments_ready sm =
              length (filter (\<lambda>d. \<exists>n. n \<noteq> 0 \<and> status_ready_replicas d = Some n \<and>
                                   spec_replicas d = Some n) ds))"
proof
  show "\<forall>d sm0. deployments_ready (count_deployment d sm0) =
            deployments_ready sm0 +
              (if \<exists>n. n \<noteq> 0 \<and> status_ready_replicas d = Some n \<and> spec_replicas d = Some n
               then 1 else 0)"
    using count_deployment_fields(7) unfolding counted_ready_def by blast
next
  from assms obtain ps ds where ds: "list_namespaced_deployment k ns = Inr ds"
    and sm: "sm = deployment_loop ds (pod_loop ps (empty_summary ns))"
    by (auto simp: summary_success)
  have "deployments_total sm = length ds"
    and "deployments_ready sm = length (filter counted_ready ds)"
    by (simp_all add: sm deployment_loop_fields pod_loop_fields empty_summary_def)
  with ds show "\<exists>ds. list_namespaced_deployment k ns = Inr ds \<and>
            deployments_total sm = length ds \<and>
            deployments_ready sm =
              length (filter (\<lambda>d. \<exists>n. n \<noteq> 0 \<and> status_ready_replicas d = Some n \<and>
                                   spec_replicas d = Some n) ds)"
    unfolding counted_ready_def by simp
qed

theorem deployment_ready_needs_nonzero_ready_replicas_witness:
  "list_namespaced_deployment summary_cluster ''test-namespace'' =
     Inr [mk_deployment (Some 2) (Some 2)] \<and>
   (\<exists>sm s'. get_namespace_health_summary summary_cluster ''test-namespace'' init_state = (Inr sm, s') \<and>
      deployments_total sm = 1 \<and> deployments_ready sm = 1)"
  using deployment_ready_needs_nonzero_ready_replicas [OF summary_test_namespace]
    summary_test_namespace
  by (simp add: summary_cluster_lists)

text \<open>A deployment scaled to zero replicas, with zero (or no) ready replicas reported, is
  listed and not counted as ready.\<close>

theorem scaled_to_zero_deployment_not_ready:
  "list_namespaced_deployment summary_cluster ''staging'' =
     Inr [\<lparr>spec_replicas = Some 0, status_ready_replicas = Some 0\<rparr>,
          \<lparr>spec_replicas = Some 0, status_ready_replicas = None\<rparr>] \<and>
   fst (get_namespace_health_summary summary_cluster ''staging'' init_state) = Inr staging_summary \<and>
   deployments_total staging_summary = 2 \<and> deployments_ready staging_summary = 0"
  by (simp add: summary_staging staging_summary_def)
    (simp add: summary_cluster_lists mk_deployment_def)

text \<open>
  Claim C6, as amended. The summary has three phase counters and no counter for other
  phases. Each listed pod is counted in the one of running, pending and failed that its
  phase names, and in none of them otherwise; the three counts add up to the total less
  the pods whose phase is none of Running, Pending and Failed.
\<close>

theorem phase_buckets_count_known_phases:
  assumes "get_namespace_health_summary k ns s = (Inr sm, s')"
  shows "\<exists>ps. list_namespaced_pod k ns = Inr ps \<and>
           pods_total sm = length ps \<and>
           pods_running sm = length (filter (\<lambda>p. phase p = Some ''Running'') ps) \<and>
           pods_pending sm = length (filter (\<lambda>p. phase p = Some ''Pending'') ps) \<and>
           pods_failed sm = length (filter (\<lambda>p. phase p = Some ''Failed'') ps) \<and>
           pods_running sm + pods_pending sm + pods_failed sm +
             length (filter (\<lambda>p. phase p \<notin> {Some ''Running'', Some ''Pending'', Some ''Failed''}) ps)
             = pods_total sm"
proof -
  from assms obtain ps ds where ps: "list_namespaced_pod k ns = Inr ps"
    and sm: "sm = deployment_loop ds (pod_loop ps (empty_summary ns))"
    by (auto simp: summary_success)
  have f: "pods_total sm = length ps"
    "pods_running sm = length (filter (\<lambda>p. phase p = Some ''Running'') ps)"
    "pods_pending sm = length (filter (\<lambda>p. phase p = Some ''Pending'') ps)"
    "pods_failed sm = length (filter (\<lambda>p. phase p = Some ''Failed'') ps)"
    by (simp_all add: sm deployment_loop_fields pod_loop_fields empty_summary_def)
  show ?thesis
    using ps f known_phase_partition [of ps] by simp
qed

theorem phase_buckets_count_known_phases_witness:
  "\<exists>sm s'. get_namespace_health_summary summary_cluster ''test-namespace'' init_state = (Inr sm, s') \<and>
      pods_total sm = 2 \<and> pods_running sm = 2 \<and> pods_pending sm = 0 \<and> pods_failed sm = 0"
  using phase_buckets_count_known_phases [OF summary_test_namespace] summary_test_namespace
  by (simp add: summary_cluster_lists)

text \<open>A pod in phase Succeeded is counted in the total and in no phase counter.\<close>

theorem succeeded_pod_in_no_phase_bucket:
  "list_namespaced_pod summary_cluster ''jobs'' =
     Inr [mk_pod ''done'' ''Succeeded'' [0], mk_pod ''crashing'' ''Running'' [4, 6]] \<and>
   fst (get_namespace_health_summary summary_cluster ''jobs'' init_state) = Inr jobs_summary \<and>
   pods_running jobs_summary + pods_pending jobs_summary + pods_failed jobs_summary = 1 \<and>
   pods_total jobs_summary = 2"
  by (simp add: summary_jobs jobs_summary_def) (simp add: summary_cluster_lists)

subsection \<open>The walk from a pod to its Deployment\<close>

lemma appended_simps [simp]:
  "calls (appended cs s) = calls s @ cs"
  "log (appended cs s) = log s"
  "heal_actions (appended cs s) = heal_actions s"
  "heal_errors (appended cs s) = heal_errors s"
  "unhealthy_pods_gauge (appended cs s) = unhealthy_pods_gauge s"
  "slept (appended cs s) = slept s"
  by (simp_all add: appended_def)

lemma appended_Nil [simp]: "appended [] s = s"
  by (simp add: appended_def)

lemma appended_called: "appended cs (called c r s) = appended ((c, r) # cs) s"
  by (simp add: appended_def called_def)

lemma rs_owner_loop_none:
  "\<forall>x \<in> set ros. owner_kind x \<noteq> ''Deployment'' \<Longrightarrow> rs_owner_loop cfg k ns ros s = None"
  by (induction ros) simp_all

lemma rs_owner_loop_skip:
  "\<forall>x \<in> set pre. owner_kind x \<noteq> ''Deployment'' \<Longrightarrow>
   rs_owner_loop cfg k ns (pre @ rest) s = rs_owner_loop cfg k ns rest s"
  by (induction pre) simp_all

lemma rs_owner_loop_found:
  "first_deployment ros d \<Longrightarrow> rs_owner_loop cfg k ns ros s = Some (heal_found cfg k ns d s)"
  by (auto simp: first_deployment_def rs_owner_loop_skip)

lemma owner_loop_step_nowhere:
  assumes "leads_nowhere k ns x"
  shows "owner_loop cfg k ns (x # rest) s = owner_loop cfg k ns rest (appended (rs_reads ns [x]) s)"
proof (cases "owner_kind x = ''ReplicaSet''")
  case False
  then show ?thesis by (simp add: rs_reads_def)
next
  case True
  with assms obtain rs where rs: "read_namespaced_replica_set k (owner_name x) ns = Inr rs"
    and no: "\<forall>ros. rs_owner_references rs = Some ros \<longrightarrow> (\<forall>y \<in> set ros. owner_kind y \<noteq> ''Deployment'')"
    by (auto simp: leads_nowhere_def)
  have c: "called (ReadReplicaSet (owner_name x) ns) None s = appended (rs_reads ns [x]) s"
    using True by (simp add: rs_reads_def appended_def called_def)
  show ?thesis
  proof (cases "rs_owner_references rs")
    case None
    with True rs c show ?thesis by (simp add: Let_def)
  next
    case (Some ros)
    with no have "rs_owner_loop cfg k ns ros (appended (rs_reads ns [x]) s) = None"
      by (simp add: rs_owner_loop_none)
    with True rs c Some show ?thesis by (simp add: Let_def)
  qed
qed

lemma rs_reads_append: "rs_reads ns (xs @ ys) = rs_reads ns xs @ rs_reads ns ys"
  by (simp add: rs_reads_def)

lemma appended_appended: "appended ys (appended xs s) = appended (xs @ ys) s"
  by (simp add: appended_def)

lemma owner_loop_skip:
  "\<forall>x \<in> set pre. leads_nowhere k ns x \<Longrightarrow>
   owner_loop cfg k ns (pre @ rest) s = owner_loop cfg k ns rest (appended (rs_reads ns pre) s)"
proof (induction pre arbitrary: s)
  case Nil
  show ?case by (simp add: rs_reads_def)
next
  case (Cons x pre)
  have "leads_nowhere k ns x" using Cons.prems by simp
  then have "owner_loop cfg k ns (x # (pre @ rest)) s
      = owner_loop cfg k ns (pre @ rest) (appended (rs_reads ns [x]) s)"
    by (rule owner_loop_step_nowhere)
  then have "owner_loop cfg k ns ((x # pre) @ rest) s
      = owner_loop cfg k ns (pre @ rest) (appended (rs_reads ns [x]) s)"
    by (simp only: append_Cons)
  also have "\<dots> = owner_loop cfg k ns rest (appended (rs_reads ns pre) (appended (rs_reads ns [x]) s))"
    using Cons.prems by (simp add: Cons.IH)
  also have "appended (rs_reads ns pre) (appended (rs_reads ns [x]) s) = appended (rs_reads ns (x # pre)) s"
    using rs_reads_append [of ns "[x]" pre] by (simp add: appended_appended)
  finally show ?case .
qed

lemma owner_loop_fell:
  "\<forall>x \<in> set owners. leads_nowhere k ns x \<Longrightarrow>
   owner_loop cfg k ns owners s = Fell (appended (rs_reads ns owners) s)"
  using owner_loop_skip [of owners k ns cfg "[]" s] by simp

lemma owner_loop_found:
  assumes "resolves_to k ns owners d"
  shows "\<exists>cs. (\<forall>c \<in> set cs. \<exists>n. c = (ReadReplicaSet n ns, None)) \<and>
     owner_loop cfg k ns owners s =
       (case heal_found cfg k ns d (appended cs s) of (b, s') \<Rightarrow> Returned b s')"
proof -
  from assms obtain pre owner post rs ros where o: "owners = pre @ owner # post"
    and pre: "\<forall>x \<in> set pre. leads_nowhere k ns x"
    and rs: "owner_kind owner = ''ReplicaSet''"
      "read_namespaced_replica_set k (owner_name owner) ns = Inr rs"
      "rs_owner_references rs = Some ros"
    and d: "first_deployment ros d"
    by (auto simp: resolves_to_def)
  let ?s1 = "appended (rs_reads ns pre) s"
  have c: "called (ReadReplicaSet (owner_name owner) ns) None ?s1
         = appended (rs_reads ns pre @ [(ReadReplicaSet (owner_name owner) ns, None)]) s"
    by (simp add: appended_def called_def)
  have "owner_loop cfg k ns owners s = owner_loop cfg k ns (owner # post) ?s1"
    unfolding o using pre by (rule owner_loop_skip)
  also have "\<dots> = (case heal_found cfg k ns d (called (ReadReplicaSet (owner_name owner) ns) None ?s1) of
          (b, s') \<Rightarrow> Returned b s')"
    using rs rs_owner_loop_found [OF d] by (simp add: Let_def split: prod.splits)
  finally have "owner_loop cfg k ns owners s =
      (case heal_found cfg k ns d
         (appended (rs_reads ns pre @ [(ReadReplicaSet (owner_name owner) ns, None)]) s) of
        (b, s') \<Rightarrow> Returned b s')"
    by (simp only: c)
  moreover have "\<forall>c \<in> set (rs_reads ns pre @ [(ReadReplicaSet (owner_name owner) ns, None)]).
      \<exists>n. c = (ReadReplicaSet n ns, None)"
    by (auto simp: rs_reads_def)
  ultimately show ?thesis by blast
qed

lemma owner_loop_raised:
  assumes "\<forall>x \<in> set pre. leads_nowhere k ns x" and "owner_kind owner = ''ReplicaSet''"
    and "read_namespaced_replica_set k (owner_name owner) ns = Inl e"
  shows "owner_loop cfg k ns (pre @ owner # post) s =
     Raised e (appended (rs_reads ns pre @ [(ReadReplicaSet (owner_name owner) ns, Some e)]) s)"
proof -
  have "owner_loop cfg k ns (pre @ owner # post) s
      = owner_loop cfg k ns (owner # post) (appended (rs_reads ns pre) s)"
    using assms(1) by (rule owner_loop_skip)
  also have "\<dots> = Raised e (called (ReadReplicaSet (owner_name owner) ns) (Some e) (appended (rs_reads ns pre) s))"
    using assms(2,3) by simp
  finally show ?thesis by (simp add: appended_def called_def)
qed

lemma first_deployment_here:
  "owner_kind dep = ''Deployment'' \<Longrightarrow> first_deployment (dep # post) (owner_name dep)"
  unfolding first_deployment_def by (intro exI [of _ "[]"] exI [of _ dep] exI [of _ post]) simp

lemma first_deployment_later:
  assumes "owner_kind x \<noteq> ''Deployment''" and "first_deployment rest d"
  shows "first_deployment (x # rest) d"
proof -
  from assms(2) obtain pre dep post where "rest = pre @ dep # post"
    "\<forall>y \<in> set pre. owner_kind y \<noteq> ''Deployment''" "owner_kind dep = ''Deployment''"
    "owner_name dep = d"
    by (auto simp: first_deployment_def)
  with assms(1) show ?thesis
    unfolding first_deployment_def
    by (intro exI [of _ "x # pre"] exI [of _ dep] exI [of _ post]) simp
qed

lemma resolves_to_here:
  assumes "owner_kind owner = ''ReplicaSet''"
    and "read_namespaced_replica_set k (owner_name owner) ns = Inr rs"
    and "rs_owner_references rs = Some ros" and "first_deployment ros d"
  shows "resolves_to k ns (owner # post) d"
  unfolding resolves_to_def using assms
  by (intro exI [of _ "[]"] exI [of _ owner] exI [of _ post] exI [of _ rs] exI [of _ ros]) simp

lemma resolves_to_later:
  assumes "leads_nowhere k ns x" and "resolves_to k ns rest d"
  shows "resolves_to k ns (x # rest) d"
proof -
  from assms(2) obtain pre owner post rs ros where "rest = pre @ owner # post"
    "\<forall>y \<in> set pre. leads_nowhere k ns y" "owner_kind owner = ''ReplicaSet''"
    "read_namespaced_replica_set k (owner_name owner) ns = Inr rs"
    "rs_owner_references rs = Some ros" "first_deployment ros d"
    by (auto simp: resolves_to_def)
  with assms(1) show ?thesis
    unfolding resolves_to_def
    by (intro exI [of _ "x # pre"] exI [of _ owner] exI [of _ post] exI [of _ rs] exI [of _ ros])
      simp
qed

subsection \<open>Remediation of one record\<close>

lemma restart_deployment_eq:
  "restart_deployment k d ns s =
     (patch_namespaced_deployment k d ns = None,
      logged (case patch_namespaced_deployment k d ns of
                None \<Rightarrow> PatchedDeployment d ns | Some e \<Rightarrow> PatchFailed d e)
        (called (PatchDeployment d ns) (patch_namespaced_deployment k d ns) s))"
  by (simp add: restart_deployment_def split: option.splits)

lemma patch_calls_simps [simp]:
  "patch_calls (logged m s) = patch_calls s"
  "patch_calls (inc_action l s) = patch_calls s"
  "patch_calls (inc_error t s) = patch_calls s"
  "patch_calls (called (PatchDeployment d ns) r s) = patch_calls s @ [(PatchDeployment d ns, r)]"
  "patch_calls (called (ReadPod n ns) r s) = patch_calls s"
  "patch_calls (called (ReadReplicaSet n ns) r s) = patch_calls s"
  "patch_calls (called (ListPods ns) r s) = patch_calls s"
  "patch_calls (called (ListDeployments ns) r s) = patch_calls s"
  by (simp_all add: patch_calls_def)

lemma patch_calls_appended_reads:
  "\<forall>c \<in> set cs. \<exists>n. c = (ReadReplicaSet n ns, None) \<Longrightarrow> patch_calls (appended cs s) = patch_calls s"
  by (induction cs) (auto simp: patch_calls_def)

lemma heal_found_dry_run:
  "dry_run cfg \<Longrightarrow>
   heal_found cfg k ns d s =
     (True, inc_action (''dry_run_restart'', ns, d)
              (logged (DryRunWouldRestart d) (logged (HealingDeployment d ns) s)))"
  by (simp add: heal_found_def)

lemma heal_found_accepted:
  "\<not> dry_run cfg \<Longrightarrow> patch_namespaced_deployment k d ns = None \<Longrightarrow>
   heal_found cfg k ns d s =
     (True, logged (RestartTriggered d) (inc_action (''restart'', ns, d)
        (logged (PatchedDeployment d ns) (called (PatchDeployment d ns) None
           (logged (HealingDeployment d ns) s)))))"
  by (simp add: heal_found_def restart_deployment_eq)

lemma heal_found_rejected:
  "\<not> dry_run cfg \<Longrightarrow> patch_namespaced_deployment k d ns = Some e \<Longrightarrow>
   heal_found cfg k ns d s =
     (False, inc_error ''patch_failed''
        (logged (PatchFailed d e) (called (PatchDeployment d ns) (Some e)
           (logged (HealingDeployment d ns) s))))"
  by (simp add: heal_found_def restart_deployment_eq)

lemma heal_found_patch_calls:
  "patch_calls (snd (heal_found cfg k ns d s)) =
     (if dry_run cfg then patch_calls s
      else patch_calls s @ [(PatchDeployment d ns, patch_namespaced_deployment k d ns)])"
  by (cases "patch_namespaced_deployment k d ns")
    (simp_all add: heal_found_dry_run heal_found_accepted heal_found_rejected)

text \<open>The pod is read, and it has owners.\<close>

lemma heal_deployment_owned:
  assumes "read_namespaced_pod k (info_name info) (info_namespace info) = Inr p"
    and "owner_references p = Some owners" and "owners \<noteq> []"
  shows "heal_deployment cfg k info s =
     (case owner_loop cfg k (info_namespace info) owners
             (called (ReadPod (info_name info) (info_namespace info)) None s) of
        Returned b s2 \<Rightarrow> (b, s2)
      | Fell s2 \<Rightarrow> (False, logged (NoDeploymentFound (info_name info)) s2)
      | Raised e s2 \<Rightarrow>
          (False, inc_error ''api_error'' (logged (HealPodFailed (info_name info) e) s2)))"
  using assms by (cases owners) (simp_all add: heal_deployment_def Let_def)

lemma heal_deployment_resolved:
  assumes "read_namespaced_pod k (info_name info) (info_namespace info) = Inr p"
    and "owner_references p = Some owners"
    and "resolves_to k (info_namespace info) owners d"
  shows "\<exists>s1. heal_deployment cfg k info s = heal_found cfg k (info_namespace info) d s1 \<and>
     patch_calls s1 = patch_calls s \<and> log s1 = log s \<and> heal_actions s1 = heal_actions s \<and>
     heal_errors s1 = heal_errors s \<and> slept s1 = slept s"
proof -
  let ?ns = "info_namespace info"
  let ?s0 = "called (ReadPod (info_name info) ?ns) None s"
  have ne: "owners \<noteq> []" using assms(3) by (auto simp: resolves_to_def)
  obtain cs where cs: "\<forall>c \<in> set cs. \<exists>n. c = (ReadReplicaSet n ?ns, None)"
    and ol: "owner_loop cfg k ?ns owners ?s0 =
       (case heal_found cfg k ?ns d (appended cs ?s0) of (b, s') \<Rightarrow> Returned b s')"
    using owner_loop_found [OF assms(3), of cfg ?s0] by blast
  have "heal_deployment cfg k info s = heal_found cfg k ?ns d (appended cs ?s0)"
    by (simp add: heal_deployment_owned [OF assms(1,2) ne] ol split: prod.splits)
  moreover have "patch_calls (appended cs ?s0) = patch_calls s"
    using cs by (simp add: patch_calls_appended_reads)
  ultimately show ?thesis by (intro exI [of _ "appended cs ?s0"]) simp
qed

subsection \<open>What one remediation adds to the trace\<close>

lemma pod_reads_simps [simp]:
  "pod_reads (logged m s) = pod_reads s"
  "pod_reads (inc_action l s) = pod_reads s"
  "pod_reads (inc_error t s) = pod_reads s"
  "pod_reads (called (ReadPod n ns) r s) = pod_reads s @ [(ReadPod n ns, r)]"
  "pod_reads (called (PatchDeployment d ns) r s) = pod_reads s"
  "pod_reads (called (ReadReplicaSet n ns) r s) = pod_reads s"
  "pod_reads (called (ListPods ns) r s) = pod_reads s"
  "pod_reads (called (ListDeployments ns) r s) = pod_reads s"
  "pod_reads (s\<lparr>slept := z\<rparr>) = pod_reads s"
  by (simp_all add: pod_reads_def)

lemma patch_calls_slept [simp]: "patch_calls (s\<lparr>slept := t\<rparr>) = patch_calls s"
  by (simp add: patch_calls_def)

lemma heal_found_pod_reads: "pod_reads (snd (heal_found cfg k ns d s)) = pod_reads s"
  by (cases "patch_namespaced_deployment k d ns"; cases "dry_run cfg")
    (simp_all add: heal_found_dry_run heal_found_accepted heal_found_rejected)

lemma rs_owner_loop_pod_reads:
  "rs_owner_loop cfg k ns ros s = Some (b, s') \<Longrightarrow> pod_reads s' = pod_reads s"
proof (induction ros)
  case Nil
  then show ?case by simp
next
  case (Cons x ros)
  show ?case
  proof (cases "owner_kind x = ''Deployment''")
    case True
    with Cons.prems have "s' = snd (heal_found cfg k ns (owner_name x) s)" by auto
    then show ?thesis by (simp add: heal_found_pod_reads)
  next
    case False
    with Cons show ?thesis by simp
  qed
qed

lemma rs_owner_loop_dry_run:
  "dry_run cfg \<Longrightarrow> rs_owner_loop cfg k ns ros s = Some (b, s') \<Longrightarrow> patch_calls s' = patch_calls s"
proof (induction ros)
  case Nil
  then show ?case by simp
next
  case (Cons x ros)
  show ?case
  proof (cases "owner_kind x = ''Deployment''")
    case True
    with Cons.prems have "s' = snd (heal_found cfg k ns (owner_name x) s)" by auto
    with Cons.prems(1) show ?thesis by (simp add: heal_found_patch_calls)
  next
    case False
    with Cons show ?thesis by simp
  qed
qed

lemma owner_loop_pod_reads:
  "pod_reads (control_state (owner_loop cfg k ns owners s)) = pod_reads s"
proof (induction owners arbitrary: s)
  case Nil
  show ?case by simp
next
  case (Cons x owners)
  show ?case
    by (auto simp: Cons.IH Let_def dest: rs_owner_loop_pod_reads split: sum.splits option.splits)
qed

lemma owner_loop_dry_run:
  "dry_run cfg \<Longrightarrow> patch_calls (control_state (owner_loop cfg k ns owners s)) = patch_calls s"
proof (induction owners arbitrary: s)
  case Nil
  show ?case by simp
next
  case (Cons x owners)
  then show ?case
    by (auto simp: Let_def dest: rs_owner_loop_dry_run split: sum.splits option.splits)
qed

lemma heal_deployment_unreadable:
  "read_namespaced_pod k (info_name info) (info_namespace info) = Inl e \<Longrightarrow>
   heal_deployment cfg k info s =
     (False, inc_error ''api_error'' (logged (HealPodFailed (info_name info) e)
        (called (ReadPod (info_name info) (info_namespace info)) (Some e) s)))"
  by (simp add: heal_deployment_def Let_def)

lemma heal_deployment_no_owner:
  "read_namespaced_pod k (info_name info) (info_namespace info) = Inr p \<Longrightarrow>
   owner_references p = None \<or> owner_references p = Some [] \<Longrightarrow>
   heal_deployment cfg k info s =
     (False, logged (NoOwnerReferences (info_name info))
        (called (ReadPod (info_name info) (info_namespace info)) None s))"
  by (auto simp: heal_deployment_def Let_def)

lemma heal_deployment_pod_reads:
  "pod_reads (snd (heal_deployment cfg k info s)) = pod_reads s @ [read_pod_entry k info]"
proof (cases "read_namespaced_pod k (info_name info) (info_namespace info)")
  case (Inl e)
  then show ?thesis by (simp add: heal_deployment_unreadable read_pod_entry_def)
next
  case (Inr p)
  let ?s0 = "called (ReadPod (info_name info) (info_namespace info)) None s"
  show ?thesis
  proof (cases "owner_references p = None \<or> owner_references p = Some []")
    case True
    with Inr show ?thesis by (simp add: heal_deployment_no_owner read_pod_entry_def)
  next
    case False
    then obtain owners where o: "owner_references p = Some owners" "owners \<noteq> []" by auto
    have "pod_reads (control_state (owner_loop cfg k (info_namespace info) owners ?s0)) = pod_reads ?s0"
      by (rule owner_loop_pod_reads)
    then show ?thesis
      using Inr
      by (cases "owner_loop cfg k (info_namespace info) owners ?s0")
        (simp_all add: heal_deployment_owned [OF Inr o] read_pod_entry_def)
  qed
qed

lemma heal_deployment_dry_run:
  assumes "dry_run cfg"
  shows "patch_calls (snd (heal_deployment cfg k info s)) = patch_calls s"
proof (cases "read_namespaced_pod k (info_name info) (info_namespace info)")
  case (Inl e)
  then show ?thesis by (simp add: heal_deployment_unreadable)
next
  case (Inr p)
  let ?s0 = "called (ReadPod (info_name info) (info_namespace info)) None s"
  show ?thesis
  proof (cases "owner_references p = None \<or> owner_references p = Some []")
    case True
    with Inr show ?thesis by (simp add: heal_deployment_no_owner)
  next
    case False
    then obtain owners where o: "owner_references p = Some owners" "owners \<noteq> []" by auto
    have "patch_calls (control_state (owner_loop cfg k (info_namespace info) owners ?s0)) = patch_calls ?s0"
      using assms by (rule owner_loop_dry_run)
    then show ?thesis
      by (cases "owner_loop cfg k (info_namespace info) owners ?s0")
        (simp_all add: heal_deployment_owned [OF Inr o])
  qed
qed

lemma heal_pods_pod_reads:
  "pod_reads (snd (heal_pods cfg k ns infos n s)) = pod_reads s @ map (read_pod_entry k) infos"
proof (induction infos arbitrary: n s)
  case Nil
  show ?case by simp
next
  case (Cons info infos)
  let ?s1 = "logged (PodHasRestarts (info_name info) ns (info_restart_count info) (restart_threshold cfg)) s"
  obtain b s2 where h: "heal_deployment cfg k info ?s1 = (b, s2)" by (cases "heal_deployment cfg k info ?s1")
  have r: "pod_reads s2 = pod_reads s @ [read_pod_entry k info]"
    using heal_deployment_pod_reads [of cfg k info ?s1] h by simp
  show ?case
    by (cases b) (simp_all add: h Let_def Cons.IH r)
qed

lemma heal_namespaces_pod_reads:
  "pod_reads (snd (heal_namespaces cfg k ups n s)) =
     pod_reads s @ map (read_pod_entry k) (concat (map snd ups))"
proof (induction ups arbitrary: n s)
  case Nil
  show ?case by simp
next
  case (Cons u ups)
  obtain ns infos where u: "u = (ns, infos)" by (cases u)
  obtain n' s' where h: "heal_pods cfg k ns infos n s = (n', s')" by (cases "heal_pods cfg k ns infos n s")
  have "pod_reads s' = pod_reads s @ map (read_pod_entry k) infos"
    using heal_pods_pod_reads [of cfg k ns infos n s] h by simp
  then show ?case by (simp add: u h Cons.IH)
qed

lemma patch_calls_rs_reads: "patch_calls (appended (rs_reads ns owners) s) = patch_calls s"
  by (rule patch_calls_appended_reads) (auto simp: rs_reads_def)

lemma heal_deployment_nowhere:
  assumes "read_namespaced_pod k (info_name info) (info_namespace info) = Inr p"
    and "owner_references p = Some owners" and "owners \<noteq> []"
    and "\<forall>x \<in> set owners. leads_nowhere k (info_namespace info) x"
  shows "heal_deployment cfg k info s =
     (False, logged (NoDeploymentFound (info_name info))
        (appended (rs_reads (info_namespace info) owners)
           (called (ReadPod (info_name info) (info_namespace info)) None s)))"
  by (simp add: heal_deployment_owned [OF assms(1-3)] owner_loop_fell [OF assms(4)])

lemma heal_deployment_rs_unreadable:
  assumes "read_namespaced_pod k (info_name info) (info_namespace info) = Inr p"
    and "owner_references p = Some (pre @ owner # post)"
    and "\<forall>x \<in> set pre. leads_nowhere k (info_namespace info) x"
    and "owner_kind owner = ''ReplicaSet''"
    and "read_namespaced_replica_set k (owner_name owner) (info_namespace info) = Inl e"
  shows "heal_deployment cfg k info s =
     (False, inc_error ''api_error'' (logged (HealPodFailed (info_name info) e)
        (appended (rs_reads (info_namespace info) pre @
                     [(ReadReplicaSet (owner_name owner) (info_namespace info), Some e)])
           (called (ReadPod (info_name info) (info_namespace info)) None s))))"
proof -
  have ne: "pre @ owner # post \<noteq> []" by simp
  show ?thesis
    by (simp add: heal_deployment_owned [OF assms(1,2) ne] owner_loop_raised [OF assms(3-5)])
qed

lemma heal_deployment_patch_rejected:
  assumes "read_namespaced_pod k (info_name info) (info_namespace info) = Inr p"
    and "owner_references p = Some owners"
    and "resolves_to k (info_namespace info) owners d"
    and "\<not> dry_run cfg"
    and "patch_namespaced_deployment k d (info_namespace info) = Some e"
  shows "fst (heal_deployment cfg k info s) = False \<and>
     heal_errors (snd (heal_deployment cfg k info s)) =
       (heal_errors s)(''patch_failed'' := heal_errors s ''patch_failed'' + 1) \<and>
     heal_actions (snd (heal_deployment cfg k info s)) = heal_actions s"
proof -
  obtain s1 where h: "heal_deployment cfg k info s = heal_found cfg k (info_namespace info) d s1"
    and f: "heal_actions s1 = heal_actions s" "heal_errors s1 = heal_errors s"
    using heal_deployment_resolved [OF assms(1-3), of cfg s] by blast
  show ?thesis
    by (simp add: h heal_found_rejected [OF assms(4,5)] f)
qed

subsection \<open>The scan and the cycle\<close>

lemma gauge_frames [simp]:
  "patch_calls (s\<lparr>unhealthy_pods_gauge := g\<rparr>) = patch_calls s"
  "pod_reads (s\<lparr>unhealthy_pods_gauge := g\<rparr>) = pod_reads s"
  by (simp_all add: patch_calls_def pod_reads_def)

lemma scan_state_simps [simp]:
  "scan_state (Inl (err, s)) = s" "scan_state (Inr (ups, s)) = s"
  by (simp_all add: scan_state_def)

lemma scan_namespaces_patch_calls:
  "patch_calls (scan_state (scan_namespaces cfg k nss ups s)) = patch_calls s"
  by (induction nss arbitrary: ups s) (simp_all add: Let_def split: sum.splits)

lemma scan_namespaces_pod_reads:
  "pod_reads (scan_state (scan_namespaces cfg k nss ups s)) = pod_reads s"
  by (induction nss arbitrary: ups s) (simp_all add: Let_def split: sum.splits)

lemma get_unhealthy_pods_frames:
  "patch_calls (scan_state (get_unhealthy_pods cfg k nss s)) = patch_calls s"
  "pod_reads (scan_state (get_unhealthy_pods cfg k nss s)) = pod_reads s"
  unfolding get_unhealthy_pods_def
  by (rule scan_namespaces_patch_calls, rule scan_namespaces_pod_reads)

lemma heal_pods_dry_run:
  assumes "dry_run cfg"
  shows "patch_calls (snd (heal_pods cfg k ns infos n s)) = patch_calls s"
proof (induction infos arbitrary: n s)
  case Nil
  show ?case by simp
next
  case (Cons info infos)
  let ?s1 = "logged (PodHasRestarts (info_name info) ns (info_restart_count info) (restart_threshold cfg)) s"
  obtain b s2 where h: "heal_deployment cfg k info ?s1 = (b, s2)" by (cases "heal_deployment cfg k info ?s1")
  have r: "patch_calls s2 = patch_calls s"
    using heal_deployment_dry_run [OF assms, of k info ?s1] h by simp
  show ?case
    by (cases b) (simp_all add: h Let_def Cons.IH r)
qed

lemma heal_namespaces_dry_run:
  assumes "dry_run cfg"
  shows "patch_calls (snd (heal_namespaces cfg k ups n s)) = patch_calls s"
proof (induction ups arbitrary: n s)
  case Nil
  show ?case by simp
next
  case (Cons u ups)
  obtain ns infos where u: "u = (ns, infos)" by (cases u)
  obtain n' s' where h: "heal_pods cfg k ns infos n s = (n', s')" by (cases "heal_pods cfg k ns infos n s")
  have "patch_calls s' = patch_calls s"
    using heal_pods_dry_run [OF assms, of k ns infos n s] h by simp
  then show ?case by (simp add: u h Cons.IH)
qed

text \<open>The three ways in which a cycle ends.\<close>

lemma run_healing_cycle_failed:
  "get_unhealthy_pods cfg k None (logged CycleStarting s) = Inl (err, s1) \<Longrightarrow>
   run_healing_cycle cfg k s = inc_error ''cycle_error'' (logged (CycleFailed err) s1)"
  by (simp add: run_healing_cycle_def)

lemma run_healing_cycle_nothing:
  "get_unhealthy_pods cfg k None (logged CycleStarting s) = Inr ([], s1) \<Longrightarrow>
   run_healing_cycle cfg k s = logged NoUnhealthyPods (s1\<lparr>unhealthy_pods_gauge := 0\<rparr>)"
  by (simp add: run_healing_cycle_def)

lemma run_healing_cycle_healed:
  "get_unhealthy_pods cfg k None (logged CycleStarting s) = Inr (ups, s1) \<Longrightarrow> ups \<noteq> [] \<Longrightarrow>
   run_healing_cycle cfg k s =
     (let total = sum_list (map (\<lambda>(namespace, pods). length pods) ups);
          s2 = logged (FoundTotal total (length ups)) (s1\<lparr>unhealthy_pods_gauge := total\<rparr>)
      in logged (CycleCompleted (fst (heal_namespaces cfg k ups 0 s2)))
           (snd (heal_namespaces cfg k ups 0 s2)))"
  by (simp add: run_healing_cycle_def Let_def split: prod.splits)

lemma run_healing_cycle_dry_run:
  assumes "dry_run cfg"
  shows "patch_calls (run_healing_cycle cfg k s) = patch_calls s"
proof (cases "get_unhealthy_pods cfg k None (logged CycleStarting s)")
  case (Inl a)
  obtain err s1 where a: "a = (err, s1)" by (cases a)
  have "patch_calls s1 = patch_calls s"
    using get_unhealthy_pods_frames(1) [of cfg k None "logged CycleStarting s"] Inl a by simp
  then show ?thesis using Inl a by (simp add: run_healing_cycle_failed)
next
  case (Inr b)
  obtain ups s1 where b: "b = (ups, s1)" by (cases b)
  have f: "patch_calls s1 = patch_calls s"
    using get_unhealthy_pods_frames(1) [of cfg k None "logged CycleStarting s"] Inr b by simp
  show ?thesis
  proof (cases "ups = []")
    case True
    then show ?thesis using Inr b f by (simp add: run_healing_cycle_nothing)
  next
    case False
    then show ?thesis
      using run_healing_cycle_healed [of cfg k s ups s1] Inr b f
      by (simp add: Let_def heal_namespaces_dry_run [OF assms])
  qed
qed







text \<open>On objects that do have the attribute the scan goes on, and adds one record for
  every container at or above the threshold.\<close>

lemma scan_containers_with_attribute:
  "\<forall>c \<in> set cs. \<exists>t. last_termination_time c = Present t \<Longrightarrow>
   \<exists>new. scan_containers cfg ns p cs u = Inr (u @ new) \<and>
     length new = length (filter (\<lambda>c. restart_count c \<ge> restart_threshold cfg) cs)"
proof (induction cs arbitrary: u)
  case Nil
  show ?case by simp
next
  case (Cons c cs)
  then obtain t where t: "last_termination_time c = Present t" by auto
  show ?case
  proof (cases "restart_count c \<ge> restart_threshold cfg")
    case False
    with Cons show ?thesis by simp
  next
    case True
    let ?r = "\<lparr>info_name = metadata_name p, info_namespace = ns,
                info_restart_count = restart_count c, info_container = container_name c,
                info_image = image c, info_ready = ready c, info_last_restart = t\<rparr>"
    from Cons obtain new where "scan_containers cfg ns p cs (u @ [?r]) = Inr ((u @ [?r]) @ new)"
      "length new = length (filter (\<lambda>c. restart_count c \<ge> restart_threshold cfg) cs)"
      by (metis list.set_intros(2))
    with True t show ?thesis by (intro exI [of _ "?r # new"]) simp
  qed
qed

subsection \<open>A record is remediated as if it were alone\<close>

text \<open>The client answers by the request only, so what \<^verbatim>\<open>heal_deployment\<close> does for a
  record does not depend on the state in which it starts: it adds to that state what it
  adds to the initial one.\<close>

lemma extend_simps [simp]:
  "calls (extend s d) = calls s @ calls d"
  "log (extend s d) = log s @ log d"
  "heal_actions (extend s d) = (\<lambda>l. heal_actions s l + heal_actions d l)"
  "heal_errors (extend s d) = (\<lambda>t. heal_errors s t + heal_errors d t)"
  "unhealthy_pods_gauge (extend s d) = unhealthy_pods_gauge s"
  "slept (extend s d) = slept s + slept d"
  by (simp_all add: extend_def)

lemma extend_init [simp]: "extend s init_state = s"
  by (simp add: extend_def init_state_def)

lemma extend_steps:
  "called c r (extend s d) = extend s (called c r d)"
  "logged m (extend s d) = extend s (logged m d)"
  "inc_action l (extend s d) = extend s (inc_action l d)"
  "inc_error t (extend s d) = extend s (inc_error t d)"
  "(extend s d)\<lparr>slept := slept (extend s d) + z\<rparr> = extend s (d\<lparr>slept := slept d + z\<rparr>)"
  by (auto simp: extend_def called_def logged_def inc_action_def inc_error_def fun_eq_iff)

lemma patch_calls_extend: "patch_calls (extend s d) = patch_calls s @ patch_calls d"
  by (simp add: patch_calls_def)

lemma restart_deployment_extend:
  "restart_deployment k dn ns (extend s d) = apsnd (extend s) (restart_deployment k dn ns d)"
  by (simp add: restart_deployment_eq extend_steps)

lemma heal_found_extend:
  "heal_found cfg k ns dn (extend s d) = apsnd (extend s) (heal_found cfg k ns dn d)"
  by (cases "patch_namespaced_deployment k dn ns"; cases "dry_run cfg")
    (simp_all add: heal_found_dry_run heal_found_accepted heal_found_rejected extend_steps)

lemma rs_owner_loop_extend:
  "rs_owner_loop cfg k ns ros (extend s d) =
     map_option (apsnd (extend s)) (rs_owner_loop cfg k ns ros d)"
  by (induction ros) (simp_all add: heal_found_extend)

lemma owner_loop_extend:
  "owner_loop cfg k ns owners (extend s d) = control_map (extend s) (owner_loop cfg k ns owners d)"
proof (induction owners arbitrary: d)
  case Nil
  show ?case by simp
next
  case (Cons x owners)
  show ?case
  proof (cases "owner_kind x = ''ReplicaSet''")
    case False
    then show ?thesis by (simp add: Cons.IH)
  next
    case True
    show ?thesis
    proof (cases "read_namespaced_replica_set k (owner_name x) ns")
      case (Inl e)
      with True show ?thesis by (simp add: extend_steps)
    next
      case (Inr rs)
      let ?d1 = "called (ReadReplicaSet (owner_name x) ns) None d"
      show ?thesis
      proof (cases "rs_owner_references rs")
        case None
        with True Inr show ?thesis by (simp add: Let_def extend_steps Cons.IH)
      next
        case (Some ros)
        show ?thesis
          by (cases "rs_owner_loop cfg k ns ros ?d1")
            (auto simp: True Inr Some Let_def extend_steps rs_owner_loop_extend Cons.IH)
      qed
    qed
  qed
qed

lemma heal_deployment_extend:
  "heal_deployment cfg k info (extend s d) = apsnd (extend s) (heal_deployment cfg k info d)"
proof (cases "read_namespaced_pod k (info_name info) (info_namespace info)")
  case (Inl e)
  then show ?thesis by (simp add: heal_deployment_unreadable extend_steps)
next
  case (Inr p)
  show ?thesis
  proof (cases "owner_references p = None \<or> owner_references p = Some []")
    case True
    with Inr show ?thesis by (simp add: heal_deployment_no_owner extend_steps)
  next
    case False
    then obtain owners where o: "owner_references p = Some owners" "owners \<noteq> []" by auto
    show ?thesis
      by (cases "owner_loop cfg k (info_namespace info) owners
                   (called (ReadPod (info_name info) (info_namespace info)) None d)")
        (simp_all add: heal_deployment_owned [OF Inr o] extend_steps owner_loop_extend)
  qed
qed

lemma heal_deployment_alone:
  "heal_deployment cfg k info s = apsnd (extend s) (heal_deployment cfg k info init_state)"
  using heal_deployment_extend [of cfg k info s init_state] by simp

lemma heal_pods_calls:
  "calls (snd (heal_pods cfg k ns infos n s)) =
     calls s @ concat (map (\<lambda>i. calls (snd (heal_deployment cfg k i init_state))) infos) \<and>
   fst (heal_pods cfg k ns infos n s) =
     n + length (filter (\<lambda>i. fst (heal_deployment cfg k i init_state)) infos)"
proof (induction infos arbitrary: n s)
  case Nil
  show ?case by simp
next
  case (Cons info infos)
  let ?s1 = "logged (PodHasRestarts (info_name info) ns (info_restart_count info) (restart_threshold cfg)) s"
  obtain b d where solo: "heal_deployment cfg k info init_state = (b, d)"
    by (cases "heal_deployment cfg k info init_state")
  have h: "heal_deployment cfg k info ?s1 = (b, extend ?s1 d)"
    using heal_deployment_alone [of cfg k info ?s1] solo by simp
  show ?case
    by (cases b) (simp_all add: h solo Let_def Cons.IH)
qed

lemma heal_namespaces_calls:
  "calls (snd (heal_namespaces cfg k ups n s)) =
     calls s @ concat (map (\<lambda>i. calls (snd (heal_deployment cfg k i init_state)))
                        (concat (map snd ups))) \<and>
   fst (heal_namespaces cfg k ups n s) =
     n + length (filter (\<lambda>i. fst (heal_deployment cfg k i init_state)) (concat (map snd ups)))"
proof (induction ups arbitrary: n s)
  case Nil
  show ?case by simp
next
  case (Cons u ups)
  obtain ns infos where u: "u = (ns, infos)" by (cases u)
  obtain n' s' where h: "heal_pods cfg k ns infos n s = (n', s')" by (cases "heal_pods cfg k ns infos n s")
  have "calls s' = calls s @ concat (map (\<lambda>i. calls (snd (heal_deployment cfg k i init_state))) infos)"
    and "n' = n + length (filter (\<lambda>i. fst (heal_deployment cfg k i init_state)) infos)"
    using heal_pods_calls [of cfg k ns infos n s] h by simp_all
  then show ?case by (simp add: u h Cons.IH)
qed

subsection \<open>The concrete clusters, evaluated\<close>

lemmas example_defs = lookup_cluster_def mk_owned_pod_def mk_owner_def mk_container_def
  mk_info_def live_def rehearsal_def not_found_def conflict_def

lemma info_fields:
  "info_name (mk_info n r) = n" "info_namespace (mk_info n r) = ''portal''"
  "info_restart_count (mk_info n r) = r"
  "restart_threshold live = 3" "dry_run live = False"
  "restart_threshold rehearsal = 3" "dry_run rehearsal = True"
  by (simp_all add: mk_info_def live_def rehearsal_def)

lemma demo_heal_orphan:
  "heal_deployment cfg demo_cluster (mk_info ''orphan'' r) s =
     (False, logged (NoOwnerReferences ''orphan'') (called (ReadPod ''orphan'' ''portal'') None s))"
  by (simp add: heal_deployment_def demo_cluster_def
      demo_pods_def demo_replica_sets_def example_defs Let_def)

lemma demo_heal_job:
  "heal_deployment cfg demo_cluster (mk_info ''job-1'' r) s =
     (False, logged (NoDeploymentFound ''job-1'')
        (called (ReadReplicaSet ''old-rs'' ''portal'') None
          (called (ReadPod ''job-1'' ''portal'') None s)))"
  by (simp add: heal_deployment_def demo_cluster_def
      demo_pods_def demo_replica_sets_def example_defs Let_def)

lemma demo_reads:
  "read_namespaced_pod demo_cluster ''api-1'' ''portal'' =
     Inr (mk_owned_pod ''api-1''
        (Some [mk_owner ''Job'' ''backup'', mk_owner ''ReplicaSet'' ''old-rs'',
               mk_owner ''ReplicaSet'' ''api-rs'', mk_owner ''ReplicaSet'' ''web-rs''])
        [mk_container ''app'' 1])"
  "read_namespaced_pod demo_cluster ''orphan'' ''portal'' =
     Inr (mk_owned_pod ''orphan'' None [mk_container ''app'' 3])"
  "read_namespaced_pod demo_cluster ''job-1'' ''portal'' =
     Inr (mk_owned_pod ''job-1'' (Some [mk_owner ''Job'' ''backup'', mk_owner ''ReplicaSet'' ''old-rs''])
        [mk_container ''app'' 6])"
  "read_namespaced_replica_set demo_cluster ''old-rs'' ''portal'' =
     Inr \<lparr>rs_owner_references = Some [mk_owner ''Rollout'' ''old'']\<rparr>"
  "read_namespaced_replica_set demo_cluster ''api-rs'' ''portal'' =
     Inr \<lparr>rs_owner_references =
          Some [mk_owner ''Rollout'' ''api-rollout'', mk_owner ''Deployment'' ''api'',
                mk_owner ''Deployment'' ''api-canary'']\<rparr>"
  "patch_namespaced_deployment demo_cluster d ns = None"
  by (simp_all add: demo_cluster_def demo_pods_def demo_replica_sets_def lookup_cluster_def
      mk_owned_pod_def)

lemma demo_leads_nowhere:
  "leads_nowhere demo_cluster ''portal'' (mk_owner ''Job'' ''backup'')"
  "leads_nowhere demo_cluster ''portal'' (mk_owner ''ReplicaSet'' ''old-rs'')"
  by (simp_all add: leads_nowhere_def mk_owner_def demo_reads)

lemma demo_api_resolves:
  "resolves_to demo_cluster ''portal''
     [mk_owner ''Job'' ''backup'', mk_owner ''ReplicaSet'' ''old-rs'',
      mk_owner ''ReplicaSet'' ''api-rs'', mk_owner ''ReplicaSet'' ''web-rs''] ''api''"
proof -
  have "first_deployment [mk_owner ''Rollout'' ''api-rollout'', mk_owner ''Deployment'' ''api'',
                mk_owner ''Deployment'' ''api-canary''] ''api''"
    using first_deployment_later [OF _ first_deployment_here,
        of "mk_owner ''Rollout'' ''api-rollout''" "mk_owner ''Deployment'' ''api''"
           "[mk_owner ''Deployment'' ''api-canary'']"]
    by (simp add: mk_owner_def)
  then have "resolves_to demo_cluster ''portal''
      [mk_owner ''ReplicaSet'' ''api-rs'', mk_owner ''ReplicaSet'' ''web-rs''] ''api''"
    by (intro resolves_to_here [where rs = "\<lparr>rs_owner_references =
          Some [mk_owner ''Rollout'' ''api-rollout'', mk_owner ''Deployment'' ''api'',
                mk_owner ''Deployment'' ''api-canary'']\<rparr>"])
      (simp_all add: demo_reads, simp_all add: mk_owner_def demo_reads)
  then show ?thesis
    by (rule resolves_to_later [OF demo_leads_nowhere(1) resolves_to_later [OF demo_leads_nowhere(2)]])
qed

lemma batch_reads:
  "read_namespaced_pod batch_cluster ''p1'' ''portal'' =
     Inr (mk_owned_pod ''p1'' (Some [mk_owner ''ReplicaSet'' ''rs1'']) [mk_container ''app'' 3])"
  "read_namespaced_pod batch_cluster ''p2'' ''portal'' =
     Inr (mk_owned_pod ''p2'' (Some [mk_owner ''ReplicaSet'' ''rs2'']) [mk_container ''app'' 4])"
  "read_namespaced_pod batch_cluster ''p3'' ''portal'' =
     Inr (mk_owned_pod ''p3'' (Some [mk_owner ''ReplicaSet'' ''rs3'']) [mk_container ''app'' 5])"
  "read_namespaced_pod batch_cluster ''p4'' ''portal'' =
     Inr (mk_owned_pod ''p4'' (Some [mk_owner ''ReplicaSet'' ''rs4'']) [mk_container ''app'' 6])"
  "read_namespaced_pod batch_cluster ''p5'' ''portal'' =
     Inr (mk_owned_pod ''p5'' (Some [mk_owner ''ReplicaSet'' ''rs5'']) [mk_container ''app'' 7])"
  "read_namespaced_replica_set batch_cluster ''rs3'' ''portal'' =
     Inr \<lparr>rs_owner_references = Some [mk_owner ''Deployment'' ''app3'']\<rparr>"
  "patch_namespaced_deployment batch_cluster ''app3'' ''portal'' = Some conflict"
  by (simp_all add: batch_cluster_def batch_pods_def batch_replica_sets_def lookup_cluster_def
      mk_owned_pod_def)

lemma batch_p3_resolves:
  "resolves_to batch_cluster ''portal'' [mk_owner ''ReplicaSet'' ''rs3''] ''app3''"
proof -
  have "first_deployment [mk_owner ''Deployment'' ''app3''] ''app3''"
    using first_deployment_here [of "mk_owner ''Deployment'' ''app3''" "[]"]
    by (simp add: mk_owner_def)
  then show ?thesis
    by (intro resolves_to_here [where rs = "\<lparr>rs_owner_references = Some [mk_owner ''Deployment'' ''app3'']\<rparr>"])
      (simp_all add: mk_owner_def batch_reads)
qed

lemma batch_heal_accepted:
  "heal_deployment live batch_cluster (mk_info ''p1'' r) s =
     (True, logged (RestartTriggered ''app1'') (inc_action (''restart'', ''portal'', ''app1'')
        (logged (PatchedDeployment ''app1'' ''portal'') (called (PatchDeployment ''app1'' ''portal'') None
           (logged (HealingDeployment ''app1'' ''portal'')
             (called (ReadReplicaSet ''rs1'' ''portal'') None
               (called (ReadPod ''p1'' ''portal'') None s)))))))"
  "heal_deployment live batch_cluster (mk_info ''p2'' r) s =
     (True, logged (RestartTriggered ''app2'') (inc_action (''restart'', ''portal'', ''app2'')
        (logged (PatchedDeployment ''app2'' ''portal'') (called (PatchDeployment ''app2'' ''portal'') None
           (logged (HealingDeployment ''app2'' ''portal'')
             (called (ReadReplicaSet ''rs2'' ''portal'') None
               (called (ReadPod ''p2'' ''portal'') None s)))))))"
  "heal_deployment live batch_cluster (mk_info ''p4'' r) s =
     (True, logged (RestartTriggered ''app4'') (inc_action (''restart'', ''portal'', ''app4'')
        (logged (PatchedDeployment ''app4'' ''portal'') (called (PatchDeployment ''app4'' ''portal'') None
           (logged (HealingDeployment ''app4'' ''portal'')
             (called (ReadReplicaSet ''rs4'' ''portal'') None
               (called (ReadPod ''p4'' ''portal'') None s)))))))"
  "heal_deployment live batch_cluster (mk_info ''p5'' r) s =
     (True, logged (RestartTriggered ''app5'') (inc_action (''restart'', ''portal'', ''app5'')
        (logged (PatchedDeployment ''app5'' ''portal'') (called (PatchDeployment ''app5'' ''portal'') None
           (logged (HealingDeployment ''app5'' ''portal'')
             (called (ReadReplicaSet ''rs5'' ''portal'') None
               (called (ReadPod ''p5'' ''portal'') None s)))))))"
  by (simp_all add: heal_deployment_def heal_found_def restart_deployment_def batch_cluster_def
      batch_pods_def batch_replica_sets_def example_defs Let_def)

lemma batch_heal_rejected:
  "heal_deployment live batch_cluster (mk_info ''p3'' r) s =
     (False, inc_error ''patch_failed''
        (logged (PatchFailed ''app3'' conflict) (called (PatchDeployment ''app3'' ''portal'') (Some conflict)
           (logged (HealingDeployment ''app3'' ''portal'')
             (called (ReadReplicaSet ''rs3'' ''portal'') None
               (called (ReadPod ''p3'' ''portal'') None s))))))"
  by (simp add: heal_deployment_def heal_found_def restart_deployment_def batch_cluster_def
      batch_pods_def batch_replica_sets_def example_defs Let_def)




lemma flaky_reads:
  "read_namespaced_pod flaky_cluster ''ok-1'' ''portal'' =
     Inr (mk_owned_pod ''ok-1''
        (Some [mk_owner ''ReplicaSet'' ''gone-rs'', mk_owner ''ReplicaSet'' ''ok-rs''])
        [mk_container ''app'' 3])"
  "read_namespaced_replica_set flaky_cluster ''gone-rs'' ''portal'' = Inl not_found"
  "read_namespaced_replica_set flaky_cluster ''ok-rs'' ''portal'' =
     Inr \<lparr>rs_owner_references = Some [mk_owner ''Deployment'' ''ok'']\<rparr>"
  by (simp_all add: flaky_cluster_def lookup_cluster_def mk_owned_pod_def)

lemma flaky_heal:
  "heal_deployment cfg flaky_cluster (mk_info ''ok-1'' r) s =
     (False, inc_error ''api_error'' (logged (HealPodFailed ''ok-1'' not_found)
        (called (ReadReplicaSet ''gone-rs'' ''portal'') (Some not_found)
           (called (ReadPod ''ok-1'' ''portal'') None s))))"
  by (simp add: heal_deployment_def flaky_cluster_def example_defs Let_def)

lemma batch_alone:
  "calls (snd (heal_deployment live batch_cluster (mk_info ''p1'' r) init_state)) =
     [(ReadPod ''p1'' ''portal'', None), (ReadReplicaSet ''rs1'' ''portal'', None),
      (PatchDeployment ''app1'' ''portal'', None)]"
  "calls (snd (heal_deployment live batch_cluster (mk_info ''p2'' r) init_state)) =
     [(ReadPod ''p2'' ''portal'', None), (ReadReplicaSet ''rs2'' ''portal'', None),
      (PatchDeployment ''app2'' ''portal'', None)]"
  "calls (snd (heal_deployment live batch_cluster (mk_info ''p3'' r) init_state)) =
     [(ReadPod ''p3'' ''portal'', None), (ReadReplicaSet ''rs3'' ''portal'', None),
      (PatchDeployment ''app3'' ''portal'', Some conflict)]"
  "calls (snd (heal_deployment live batch_cluster (mk_info ''p4'' r) init_state)) =
     [(ReadPod ''p4'' ''portal'', None), (ReadReplicaSet ''rs4'' ''portal'', None),
      (PatchDeployment ''app4'' ''portal'', None)]"
  "calls (snd (heal_deployment live batch_cluster (mk_info ''p5'' r) init_state)) =
     [(ReadPod ''p5'' ''portal'', None), (ReadReplicaSet ''rs5'' ''portal'', None),
      (PatchDeployment ''app5'' ''portal'', None)]"
  "fst (heal_deployment live batch_cluster (mk_info ''p1'' r) init_state)"
  "fst (heal_deployment live batch_cluster (mk_info ''p2'' r) init_state)"
  "\<not> fst (heal_deployment live batch_cluster (mk_info ''p3'' r) init_state)"
  "fst (heal_deployment live batch_cluster (mk_info ''p4'' r) init_state)"
  "fst (heal_deployment live batch_cluster (mk_info ''p5'' r) init_state)"
  by (simp_all add: batch_heal_accepted batch_heal_rejected init_state_def)

subsection \<open>Two-hop resolution\<close>

text \<open>
  Claim C8, as amended. When the pod of a record is read, and its owners resolve in two
  hops to the Deployment \<open>d\<close> (the first Deployment owner of the first ReplicaSet owner
  that has one, every owner before that ReplicaSet being no ReplicaSet or a ReplicaSet that
  is read without error and has no Deployment owner), \<^verbatim>\<open>heal_deployment\<close> runs its
  remediation step for \<open>d\<close> in the pod's own namespace, having issued no patch and
  changed no counter before: outside a dry run the one patch it issues is for \<open>d\<close> in
  that namespace. Later ReplicaSet and Deployment owners are not looked at.
\<close>

theorem two_hop_resolution_first_deployment:
  assumes "read_namespaced_pod k (info_name info) (info_namespace info) = Inr p"
    and "owner_references p = Some owners"
    and "resolves_to k (info_namespace info) owners d"
  shows "(\<exists>s1. heal_deployment cfg k info s = heal_found cfg k (info_namespace info) d s1 \<and>
            patch_calls s1 = patch_calls s \<and> heal_actions s1 = heal_actions s \<and>
            heal_errors s1 = heal_errors s) \<and>
         patch_calls (snd (heal_deployment cfg k info s)) =
           (if dry_run cfg then patch_calls s
            else patch_calls s @
              [(PatchDeployment d (info_namespace info),
                patch_namespaced_deployment k d (info_namespace info))])"
proof -
  obtain s1 where h: "heal_deployment cfg k info s = heal_found cfg k (info_namespace info) d s1"
    and f: "patch_calls s1 = patch_calls s" "heal_actions s1 = heal_actions s"
      "heal_errors s1 = heal_errors s"
    using heal_deployment_resolved [OF assms, of cfg s] by blast
  have "patch_calls (snd (heal_deployment cfg k info s)) =
           (if dry_run cfg then patch_calls s
            else patch_calls s @
              [(PatchDeployment d (info_namespace info),
                patch_namespaced_deployment k d (info_namespace info))])"
    by (simp add: h heal_found_patch_calls f)
  with h f show ?thesis by blast
qed

theorem two_hop_resolution_first_deployment_witness:
  "resolves_to demo_cluster ''portal''
     [mk_owner ''Job'' ''backup'', mk_owner ''ReplicaSet'' ''old-rs'',
      mk_owner ''ReplicaSet'' ''api-rs'', mk_owner ''ReplicaSet'' ''web-rs''] ''api'' \<and>
   patch_calls (snd (heal_deployment live demo_cluster (mk_info ''api-1'' 1) init_state)) =
     [(PatchDeployment ''api'' ''portal'', None)]"
  using two_hop_resolution_first_deployment [of demo_cluster "mk_info ''api-1'' 1" _ _ "''api''" live init_state,
      OF _ _ demo_api_resolves [unfolded info_fields(2) [of "''api-1''" 1, symmetric]]]
    demo_api_resolves
  by (simp add: info_fields demo_reads mk_owned_pod_def) (simp add: patch_calls_def init_state_def)

text \<open>Without the condition on the earlier owners the claim fails: the pod below is owned
  by the ReplicaSet \<^verbatim>\<open>ok-rs\<close>, itself owned by the Deployment \<^verbatim>\<open>ok\<close>, but the read of
  its earlier ReplicaSet owner raises, which ends \<^verbatim>\<open>heal_deployment\<close> with \<^verbatim>\<open>False\<close>,
  no patch, and one more \<^verbatim>\<open>api_error\<close>.\<close>

theorem unreadable_earlier_owner_ends_resolution:
  "read_namespaced_pod flaky_cluster ''ok-1'' ''portal'' =
     Inr (mk_owned_pod ''ok-1''
        (Some [mk_owner ''ReplicaSet'' ''gone-rs'', mk_owner ''ReplicaSet'' ''ok-rs''])
        [mk_container ''app'' 3]) \<and>
   read_namespaced_replica_set flaky_cluster ''gone-rs'' ''portal'' = Inl not_found \<and>
   read_namespaced_replica_set flaky_cluster ''ok-rs'' ''portal'' =
     Inr \<lparr>rs_owner_references = Some [mk_owner ''Deployment'' ''ok'']\<rparr> \<and>
   heal_deployment live flaky_cluster (mk_info ''ok-1'' 3) init_state =
     (False, inc_error ''api_error'' (logged (HealPodFailed ''ok-1'' not_found)
        (called (ReadReplicaSet ''gone-rs'' ''portal'') (Some not_found)
           (called (ReadPod ''ok-1'' ''portal'') None init_state)))) \<and>
   patch_calls (snd (heal_deployment live flaky_cluster (mk_info ''ok-1'' 3) init_state)) = []"
  by (simp add: flaky_reads flaky_heal) (simp add: patch_calls_def init_state_def)

subsection \<open>The dry-run gate\<close>

text \<open>
  Claim C4. With \<^verbatim>\<open>dry_run\<close> set, \<^verbatim>\<open>heal_deployment\<close> issues no patch request for any
  record, and neither does a whole healing cycle: the test of \<^verbatim>\<open>self.dry_run\<close> comes
  before the call of \<^verbatim>\<open>restart_deployment\<close>, and its branch returns. When the owning
  deployment of the pod is resolved, the step returns \<^verbatim>\<open>True\<close>, adds exactly one to the
  counter labelled \<^verbatim>\<open>dry_run_restart\<close> for that deployment, and counts no error.
\<close>

theorem dry_run_gate:
  assumes "dry_run cfg"
  shows "patch_calls (snd (heal_deployment cfg k info s)) = patch_calls s \<and>
         patch_calls (run_healing_cycle cfg k s) = patch_calls s \<and>
         (\<forall>p owners d.
            read_namespaced_pod k (info_name info) (info_namespace info) = Inr p \<and>
            owner_references p = Some owners \<and>
            resolves_to k (info_namespace info) owners d \<longrightarrow>
              fst (heal_deployment cfg k info s) \<and>
              heal_actions (snd (heal_deployment cfg k info s)) =
                (heal_actions s)((''dry_run_restart'', info_namespace info, d) :=
                   heal_actions s (''dry_run_restart'', info_namespace info, d) + 1) \<and>
              heal_errors (snd (heal_deployment cfg k info s)) = heal_errors s)"
proof (intro conjI allI impI)
  show "patch_calls (snd (heal_deployment cfg k info s)) = patch_calls s"
    using assms by (rule heal_deployment_dry_run)
  show "patch_calls (run_healing_cycle cfg k s) = patch_calls s"
    using assms by (rule run_healing_cycle_dry_run)
next
  fix p owners d
  assume a: "read_namespaced_pod k (info_name info) (info_namespace info) = Inr p \<and>
            owner_references p = Some owners \<and>
            resolves_to k (info_namespace info) owners d"
  then obtain s1 where h: "heal_deployment cfg k info s = heal_found cfg k (info_namespace info) d s1"
    and f: "heal_actions s1 = heal_actions s" "heal_errors s1 = heal_errors s"
    using heal_deployment_resolved [of k info p owners d cfg s] by blast
  show "fst (heal_deployment cfg k info s)"
    by (simp add: h heal_found_dry_run [OF assms])
  show "heal_actions (snd (heal_deployment cfg k info s)) =
                (heal_actions s)((''dry_run_restart'', info_namespace info, d) :=
                   heal_actions s (''dry_run_restart'', info_namespace info, d) + 1)"
    by (simp add: h heal_found_dry_run [OF assms] f)
  show "heal_errors (snd (heal_deployment cfg k info s)) = heal_errors s"
    by (simp add: h heal_found_dry_run [OF assms] f)
qed

theorem dry_run_gate_witness:
  "dry_run rehearsal \<and>
   fst (heal_deployment rehearsal demo_cluster (mk_info ''api-1'' 1) init_state) \<and>
   heal_actions (snd (heal_deployment rehearsal demo_cluster (mk_info ''api-1'' 1) init_state))
     (''dry_run_restart'', ''portal'', ''api'') = 1 \<and>
   patch_calls (snd (heal_deployment rehearsal demo_cluster (mk_info ''api-1'' 1) init_state)) = [] \<and>
   patch_calls (run_healing_cycle rehearsal demo_cluster init_state) = []"
  using dry_run_gate [of rehearsal demo_cluster "mk_info ''api-1'' 1" init_state]
    demo_api_resolves
  by (simp add: info_fields demo_reads mk_owned_pod_def)
    (simp add: patch_calls_def init_state_def)

subsection \<open>Skipped pods\<close>

text \<open>
  Claim C7, as amended. \<^verbatim>\<open>heal_deployment\<close> returns a Boolean. For a pod with no owner
  references (absent or empty) it returns \<^verbatim>\<open>False\<close> after the one read of the pod, and
  for a pod whose owners lead to no Deployment it returns \<^verbatim>\<open>False\<close> after the reads of
  its ReplicaSet owners: the same value, the two outcomes differing only in the warning
  that is logged. In both cases no patch is issued and no counter changes.
\<close>

theorem skipped_pods_return_false:
  "(read_namespaced_pod k (info_name info) (info_namespace info) = Inr p \<and>
    (owner_references p = None \<or> owner_references p = Some []) \<longrightarrow>
      heal_deployment cfg k info s =
        (False, logged (NoOwnerReferences (info_name info))
           (called (ReadPod (info_name info) (info_namespace info)) None s)) \<and>
      patch_calls (snd (heal_deployment cfg k info s)) = patch_calls s) \<and>
   (read_namespaced_pod k (info_name info) (info_namespace info) = Inr p \<and>
    owner_references p = Some owners \<and> owners \<noteq> [] \<and>
    (\<forall>x \<in> set owners. leads_nowhere k (info_namespace info) x) \<longrightarrow>
      heal_deployment cfg k info s =
        (False, logged (NoDeploymentFound (info_name info))
           (appended (rs_reads (info_namespace info) owners)
              (called (ReadPod (info_name info) (info_namespace info)) None s))) \<and>
      patch_calls (snd (heal_deployment cfg k info s)) = patch_calls s)"
proof (intro conjI impI)
  assume a: "read_namespaced_pod k (info_name info) (info_namespace info) = Inr p \<and>
    (owner_references p = None \<or> owner_references p = Some [])"
  then show e: "heal_deployment cfg k info s =
        (False, logged (NoOwnerReferences (info_name info))
           (called (ReadPod (info_name info) (info_namespace info)) None s))"
    using heal_deployment_no_owner [of k info p cfg s] by blast
  show "patch_calls (snd (heal_deployment cfg k info s)) = patch_calls s"
    by (simp add: e)
next
  assume a: "read_namespaced_pod k (info_name info) (info_namespace info) = Inr p \<and>
    owner_references p = Some owners \<and> owners \<noteq> [] \<and>
    (\<forall>x \<in> set owners. leads_nowhere k (info_namespace info) x)"
  then show e: "heal_deployment cfg k info s =
        (False, logged (NoDeploymentFound (info_name info))
           (appended (rs_reads (info_namespace info) owners)
              (called (ReadPod (info_name info) (info_namespace info)) None s)))"
    using heal_deployment_nowhere [of k info p owners cfg s] by blast
  show "patch_calls (snd (heal_deployment cfg k info s)) = patch_calls s"
    by (simp add: e patch_calls_rs_reads)
qed

theorem skipped_pods_return_false_witness:
  "heal_deployment live demo_cluster (mk_info ''orphan'' 3) init_state =
     (False, logged (NoOwnerReferences ''orphan'')
        (called (ReadPod ''orphan'' ''portal'') None init_state)) \<and>
   heal_deployment live demo_cluster (mk_info ''job-1'' 6) init_state =
     (False, logged (NoDeploymentFound ''job-1'')
        (called (ReadReplicaSet ''old-rs'' ''portal'') None
           (called (ReadPod ''job-1'' ''portal'') None init_state)))"
  using skipped_pods_return_false [of demo_cluster "mk_info ''orphan'' 3"
        "mk_owned_pod ''orphan'' None [mk_container ''app'' 3]" live init_state]
    skipped_pods_return_false [of demo_cluster "mk_info ''job-1'' 6"
        "mk_owned_pod ''job-1'' (Some [mk_owner ''Job'' ''backup'', mk_owner ''ReplicaSet'' ''old-rs''])
           [mk_container ''app'' 6]" live init_state
        "[mk_owner ''Job'' ''backup'', mk_owner ''ReplicaSet'' ''old-rs'']"]
    demo_leads_nowhere
  by (simp add: info_fields demo_reads mk_owned_pod_def rs_reads_def)
    (simp add: mk_owner_def appended_def called_def)

text \<open>A pod without owners and a pod whose only ReplicaSet owner belongs to no Deployment:
  the returned values are equal.\<close>

theorem skip_reasons_return_the_same_value:
  "owner_references (mk_owned_pod ''orphan'' None [mk_container ''app'' 3]) = None \<and>
   read_namespaced_pod demo_cluster ''orphan'' ''portal'' =
     Inr (mk_owned_pod ''orphan'' None [mk_container ''app'' 3]) \<and>
   read_namespaced_pod demo_cluster ''job-1'' ''portal'' =
     Inr (mk_owned_pod ''job-1'' (Some [mk_owner ''Job'' ''backup'', mk_owner ''ReplicaSet'' ''old-rs''])
        [mk_container ''app'' 6]) \<and>
   read_namespaced_replica_set demo_cluster ''old-rs'' ''portal'' =
     Inr \<lparr>rs_owner_references = Some [mk_owner ''Rollout'' ''old'']\<rparr> \<and>
   fst (heal_deployment live demo_cluster (mk_info ''orphan'' 3) init_state) = False \<and>
   fst (heal_deployment live demo_cluster (mk_info ''job-1'' 6) init_state) = False \<and>
   fst (heal_deployment live demo_cluster (mk_info ''orphan'' 3) init_state) =
     fst (heal_deployment live demo_cluster (mk_info ''job-1'' 6) init_state)"
  by (simp add: demo_heal_orphan demo_heal_job demo_reads) (simp add: mk_owned_pod_def)

subsection \<open>Failures inside a batch\<close>

text \<open>
  Claim C9. \<^verbatim>\<open>heal_deployment\<close> always returns to the loop of the cycle. An
  \<^verbatim>\<open>ApiException\<close> from the read of the pod or of a ReplicaSet is caught: the result is
  \<^verbatim>\<open>False\<close> and the error counter \<^verbatim>\<open>api_error\<close> grows by one. A rejected patch gives
  \<^verbatim>\<open>False\<close> and one more \<^verbatim>\<open>patch_failed\<close>. What is done for a record does not depend
  on what happened before it: from any state, \<^verbatim>\<open>heal_deployment\<close> returns what it
  returns for the record alone and adds to the state what it adds for the record alone.
  So the loops over a batch make, for every record in order, all the calls (reads and
  patch) that the record makes alone, whatever the outcomes of the earlier records, and
  the healed count is the number of records that succeed alone. The witness is a batch of
  five records in which the patch for the third is rejected.
\<close>

theorem failure_never_stops_the_batch:
  "(\<forall>e. read_namespaced_pod k (info_name info) (info_namespace info) = Inl e \<longrightarrow>
      heal_deployment cfg k info s =
        (False, inc_error ''api_error'' (logged (HealPodFailed (info_name info) e)
           (called (ReadPod (info_name info) (info_namespace info)) (Some e) s)))) \<and>
   (\<forall>p pre owner post e.
      read_namespaced_pod k (info_name info) (info_namespace info) = Inr p \<and>
      owner_references p = Some (pre @ owner # post) \<and>
      (\<forall>x \<in> set pre. leads_nowhere k (info_namespace info) x) \<and>
      owner_kind owner = ''ReplicaSet'' \<and>
      read_namespaced_replica_set k (owner_name owner) (info_namespace info) = Inl e \<longrightarrow>
        fst (heal_deployment cfg k info s) = False \<and>
        heal_errors (snd (heal_deployment cfg k info s)) =
          (heal_errors s)(''api_error'' := heal_errors s ''api_error'' + 1)) \<and>
   (\<forall>p owners d e.
      read_namespaced_pod k (info_name info) (info_namespace info) = Inr p \<and>
      owner_references p = Some owners \<and>
      resolves_to k (info_namespace info) owners d \<and>
      \<not> dry_run cfg \<and> patch_namespaced_deployment k d (info_namespace info) = Some e \<longrightarrow>
        fst (heal_deployment cfg k info s) = False \<and>
        heal_errors (snd (heal_deployment cfg k info s)) =
          (heal_errors s)(''patch_failed'' := heal_errors s ''patch_failed'' + 1)) \<and>
   fst (heal_deployment cfg k info s) = fst (heal_deployment cfg k info init_state) \<and>
   snd (heal_deployment cfg k info s) = extend s (snd (heal_deployment cfg k info init_state)) \<and>
   calls (snd (heal_pods cfg k namespace infos n s)) =
     calls s @ concat (map (\<lambda>i. calls (snd (heal_deployment cfg k i init_state))) infos) \<and>
   fst (heal_pods cfg k namespace infos n s) =
     n + length (filter (\<lambda>i. fst (heal_deployment cfg k i init_state)) infos) \<and>
   calls (snd (heal_namespaces cfg k unhealthy_pods n s)) =
     calls s @ concat (map (\<lambda>i. calls (snd (heal_deployment cfg k i init_state)))
                        (concat (map snd unhealthy_pods))) \<and>
   fst (heal_namespaces cfg k unhealthy_pods n s) =
     n + length (filter (\<lambda>i. fst (heal_deployment cfg k i init_state))
                   (concat (map snd unhealthy_pods)))"
proof (intro conjI allI impI)
  fix e
  assume "read_namespaced_pod k (info_name info) (info_namespace info) = Inl e"
  then show "heal_deployment cfg k info s =
        (False, inc_error ''api_error'' (logged (HealPodFailed (info_name info) e)
           (called (ReadPod (info_name info) (info_namespace info)) (Some e) s)))"
    by (rule heal_deployment_unreadable)
next
  fix p pre owner post e
  assume a: "read_namespaced_pod k (info_name info) (info_namespace info) = Inr p \<and>
      owner_references p = Some (pre @ owner # post) \<and>
      (\<forall>x \<in> set pre. leads_nowhere k (info_namespace info) x) \<and>
      owner_kind owner = ''ReplicaSet'' \<and>
      read_namespaced_replica_set k (owner_name owner) (info_namespace info) = Inl e"
  then have h: "heal_deployment cfg k info s =
     (False, inc_error ''api_error'' (logged (HealPodFailed (info_name info) e)
        (appended (rs_reads (info_namespace info) pre @
                     [(ReadReplicaSet (owner_name owner) (info_namespace info), Some e)])
           (called (ReadPod (info_name info) (info_namespace info)) None s))))"
    using heal_deployment_rs_unreadable [of k info p pre owner post e cfg s] by blast
  show "fst (heal_deployment cfg k info s) = False" by (simp add: h)
  show "heal_errors (snd (heal_deployment cfg k info s)) =
          (heal_errors s)(''api_error'' := heal_errors s ''api_error'' + 1)"
    by (simp add: h)
next
  fix p owners d e
  assume a: "read_namespaced_pod k (info_name info) (info_namespace info) = Inr p \<and>
      owner_references p = Some owners \<and>
      resolves_to k (info_namespace info) owners d \<and>
      \<not> dry_run cfg \<and> patch_namespaced_deployment k d (info_namespace info) = Some e"
  then have h: "fst (heal_deployment cfg k info s) = False \<and>
     heal_errors (snd (heal_deployment cfg k info s)) =
       (heal_errors s)(''patch_failed'' := heal_errors s ''patch_failed'' + 1) \<and>
     heal_actions (snd (heal_deployment cfg k info s)) = heal_actions s"
    using heal_deployment_patch_rejected [of k info p owners d cfg e s] by blast
  from h show "fst (heal_deployment cfg k info s) = False" by blast
  from h show "heal_errors (snd (heal_deployment cfg k info s)) =
          (heal_errors s)(''patch_failed'' := heal_errors s ''patch_failed'' + 1)"
    by blast
next
  show "fst (heal_deployment cfg k info s) = fst (heal_deployment cfg k info init_state)"
    by (simp add: heal_deployment_alone [of cfg k info s])
  show "snd (heal_deployment cfg k info s) = extend s (snd (heal_deployment cfg k info init_state))"
    by (simp add: heal_deployment_alone [of cfg k info s])
  show "calls (snd (heal_pods cfg k namespace infos n s)) =
     calls s @ concat (map (\<lambda>i. calls (snd (heal_deployment cfg k i init_state))) infos)"
    using heal_pods_calls [of cfg k namespace infos n s] by blast
  show "fst (heal_pods cfg k namespace infos n s) =
     n + length (filter (\<lambda>i. fst (heal_deployment cfg k i init_state)) infos)"
    using heal_pods_calls [of cfg k namespace infos n s] by blast
  show "calls (snd (heal_namespaces cfg k unhealthy_pods n s)) =
     calls s @ concat (map (\<lambda>i. calls (snd (heal_deployment cfg k i init_state)))
                        (concat (map snd unhealthy_pods)))"
    using heal_namespaces_calls [of cfg k unhealthy_pods n s] by blast
  show "fst (heal_namespaces cfg k unhealthy_pods n s) =
     n + length (filter (\<lambda>i. fst (heal_deployment cfg k i init_state))
                   (concat (map snd unhealthy_pods)))"
    using heal_namespaces_calls [of cfg k unhealthy_pods n s] by blast
qed

theorem failure_never_stops_the_batch_witness:
  "patch_namespaced_deployment batch_cluster ''app3'' ''portal'' = Some conflict \<and>
   fst (heal_deployment live batch_cluster (mk_info ''p3'' 5) init_state) = False \<and>
   heal_errors (snd (heal_deployment live batch_cluster (mk_info ''p3'' 5) init_state))
     ''patch_failed'' = 1 \<and>
   calls (snd (heal_namespaces live batch_cluster
      [(''portal'', [mk_info ''p1'' 3, mk_info ''p2'' 4, mk_info ''p3'' 5, mk_info ''p4'' 6,
                    mk_info ''p5'' 7])] 0 init_state)) =
     [(ReadPod ''p1'' ''portal'', None), (ReadReplicaSet ''rs1'' ''portal'', None),
      (PatchDeployment ''app1'' ''portal'', None),
      (ReadPod ''p2'' ''portal'', None), (ReadReplicaSet ''rs2'' ''portal'', None),
      (PatchDeployment ''app2'' ''portal'', None),
      (ReadPod ''p3'' ''portal'', None), (ReadReplicaSet ''rs3'' ''portal'', None),
      (PatchDeployment ''app3'' ''portal'', Some conflict),
      (ReadPod ''p4'' ''portal'', None), (ReadReplicaSet ''rs4'' ''portal'', None),
      (PatchDeployment ''app4'' ''portal'', None),
      (ReadPod ''p5'' ''portal'', None), (ReadReplicaSet ''rs5'' ''portal'', None),
      (PatchDeployment ''app5'' ''portal'', None)] \<and>
   fst (heal_namespaces live batch_cluster
      [(''portal'', [mk_info ''p1'' 3, mk_info ''p2'' 4, mk_info ''p3'' 5, mk_info ''p4'' 6,
                    mk_info ''p5'' 7])] 0 init_state) = 4"
proof -
  note t = failure_never_stops_the_batch
    [of batch_cluster "mk_info ''p3'' 5" live init_state "''portal''" "[]" 0
        "[(''portal'', [mk_info ''p1'' 3, mk_info ''p2'' 4, mk_info ''p3'' 5, mk_info ''p4'' 6,
                       mk_info ''p5'' 7])]"]
  note rejected = t [THEN conjunct2, THEN conjunct2, THEN conjunct1, rule_format,
      of "mk_owned_pod ''p3'' (Some [mk_owner ''ReplicaSet'' ''rs3'']) [mk_container ''app'' 5]"
         "[mk_owner ''ReplicaSet'' ''rs3'']" "''app3''" conflict]
  note batch = t [THEN conjunct2, THEN conjunct2, THEN conjunct2, THEN conjunct2,
      THEN conjunct2, THEN conjunct2, THEN conjunct2]
  have r: "fst (heal_deployment live batch_cluster (mk_info ''p3'' 5) init_state) = False \<and>
      heal_errors (snd (heal_deployment live batch_cluster (mk_info ''p3'' 5) init_state)) =
        (heal_errors init_state)(''patch_failed'' := heal_errors init_state ''patch_failed'' + 1)"
    by (rule rejected) (simp add: info_fields batch_reads batch_p3_resolves mk_owned_pod_def)
  have z: "heal_errors init_state ''patch_failed'' = 0" "calls init_state = []"
    by (simp_all add: init_state_def)
  show ?thesis
    using r batch by (simp add: batch_reads z batch_alone)
qed

subsection \<open>Remediation attempts for one pod\<close>



end
